theory Spec2Isabelle
  imports Complex_Main
begin

section \<open>GameStateManager: session and state holder\<close>

text \<open>
  The class \<open>GameStateManager\<close> keeps the current and previous game state, the session
  record and a bounded state history. JavaScript numbers that hold timestamps
  (milliseconds of \<open>Date.now()\<close>), scores and counters are modelled as \<open>int\<close>;
  \<open>Math.floor(x / 1000)\<close> on such a value is \<open>x div 1000\<close>, which rounds towards minus
  infinity as \<open>Math.floor\<close> does. The reading of the clock is an argument \<open>now\<close> of every
  function that calls \<open>Date.now()\<close>. The \<open>SCENE_CHANGE\<close> events that \<open>setState\<close> emits go
  to listeners outside this class and are recorded in the field \<open>emitted\<close>.
\<close>

datatype GameState = MENU | LOADING | PLAYING | PAUSED | GAME_OVER | VICTORY

record Score =
  total_score :: int
  items :: int
  time :: int
  kills :: int

record Stats =
  killCount :: int
  itemsCollected :: int
  damageDealt :: int
  damageTaken :: int

record Difficulty =
  multiplier :: real
  level :: int

record GameSession =
  startTime :: int
  currentTime :: int
  elapsedTime :: int
  score :: Score
  stats :: Stats
  difficulty :: Difficulty

record GameStateManager =
  currentState :: GameState
  previousState :: GameState
  session :: "GameSession option"
  stateHistory :: "GameState list"
  emitted :: "(GameState \<times> GameState) list"

text \<open>The fields of a freshly constructed manager.\<close>

definition newGameStateManager :: GameStateManager where
  "newGameStateManager =
     \<lparr>currentState = MENU, previousState = MENU, session = None,
      stateHistory = [], emitted = []\<rparr>"

definition setState :: "GameState \<Rightarrow> GameStateManager \<Rightarrow> GameStateManager" where
  "setState newState m =
     (if newState = currentState m then m
      else
        let pushed = stateHistory m @ [newState];
            hist = (if length pushed > 10 then tl pushed else pushed)
        in m\<lparr>previousState := currentState m,
             currentState := newState,
             stateHistory := hist,
             emitted := emitted m @ [(currentState m, newState)]\<rparr>)"

definition getState :: "GameStateManager \<Rightarrow> GameState" where
  "getState m = currentState m"

definition isPlaying :: "GameStateManager \<Rightarrow> bool" where
  "isPlaying m = (currentState m = PLAYING)"

definition startNewSession :: "int \<Rightarrow> GameStateManager \<Rightarrow> GameStateManager" where
  "startNewSession now m =
     m\<lparr>session := Some
        \<lparr>startTime = now, currentTime = now, elapsedTime = 0,
         score = \<lparr>total_score = 0, items = 0, time = 0, kills = 0\<rparr>,
         stats = \<lparr>killCount = 0, itemsCollected = 0, damageDealt = 0, damageTaken = 0\<rparr>,
         difficulty = \<lparr>multiplier = 1, level = 1\<rparr>\<rparr>\<rparr>"

definition updateSessionTime :: "int \<Rightarrow> GameStateManager \<Rightarrow> GameStateManager" where
  "updateSessionTime now m =
     (case session m of
        None \<Rightarrow> m
      | Some s \<Rightarrow>
          if \<not> isPlaying m then m
          else m\<lparr>session := Some (s\<lparr>currentTime := now, elapsedTime := now - startTime s\<rparr>)\<rparr>)"

text \<open>
  The payload that \<open>endSession\<close> fills in with \<open>Object.assign\<close> when the caller passed one:
  the session, the final score, the game time and the kill count.
\<close>

record SessionSummary =
  summary_session :: GameSession
  finalScore :: int
  gameTime :: int
  summary_kills :: int

text \<open>
  \<open>endSession reason hasData now m\<close>: \<open>hasData\<close> tells whether the event carried a payload
  object; the second component of the result is what was assigned into it.
\<close>

definition endSession ::
  "string \<Rightarrow> bool \<Rightarrow> int \<Rightarrow> GameStateManager \<Rightarrow> GameStateManager \<times> SessionSummary option" where
  "endSession reason hasData now m =
     (case session m of
        None \<Rightarrow> (m, None)
      | Some _ \<Rightarrow>
          let m1 = updateSessionTime now m in
          (case session m1 of
             None \<Rightarrow> (m1, None)
           | Some s1 \<Rightarrow>
               let s2 = s1\<lparr>score := (score s1)\<lparr>time := elapsedTime s1 div 1000\<rparr>\<rparr>;
                   s3 = s2\<lparr>score := (score s2)
                          \<lparr>total_score := items (score s2) + time (score s2) + kills (score s2)\<rparr>\<rparr>;
                   m2 = m1\<lparr>session := Some s3\<rparr>
               in (m2,
                   if hasData
                   then Some \<lparr>summary_session = s3, finalScore = total_score (score s3),
                              gameTime = elapsedTime s3, summary_kills = killCount (stats s3)\<rparr>
                   else None)))"

definition getSession :: "GameStateManager \<Rightarrow> GameSession option" where
  "getSession m = session m"

definition updateScore :: "string \<Rightarrow> int \<Rightarrow> GameStateManager \<Rightarrow> GameStateManager" where
  "updateScore category delta m =
     (case session m of
        None \<Rightarrow> m
      | Some s \<Rightarrow>
          if category = ''items''
          then m\<lparr>session := Some (s\<lparr>score := (score s)\<lparr>items := items (score s) + delta\<rparr>\<rparr>)\<rparr>
          else if category = ''time''
          then m\<lparr>session := Some (s\<lparr>score := (score s)\<lparr>time := time (score s) + delta\<rparr>\<rparr>)\<rparr>
          else if category = ''kills''
          then m\<lparr>session := Some (s\<lparr>score := (score s)\<lparr>kills := kills (score s) + delta\<rparr>\<rparr>)\<rparr>
          else m\<lparr>session := Some
                 (s\<lparr>score := (score s)\<lparr>total_score := total_score (score s) + delta\<rparr>\<rparr>)\<rparr>)"

text \<open>The keys of \<open>GameSession['stats']\<close>, the type of the first argument of \<open>updateStats\<close>.\<close>

datatype StatKey = KillCount | ItemsCollected | DamageDealt | DamageTaken

definition updateStats :: "StatKey \<Rightarrow> int \<Rightarrow> GameStateManager \<Rightarrow> GameStateManager" where
  "updateStats stat delta m =
     (case session m of
        None \<Rightarrow> m
      | Some s \<Rightarrow>
          m\<lparr>session := Some (s\<lparr>stats :=
             (case stat of
                KillCount \<Rightarrow> (stats s)\<lparr>killCount := killCount (stats s) + delta\<rparr>
              | ItemsCollected \<Rightarrow> (stats s)\<lparr>itemsCollected := itemsCollected (stats s) + delta\<rparr>
              | DamageDealt \<Rightarrow> (stats s)\<lparr>damageDealt := damageDealt (stats s) + delta\<rparr>
              | DamageTaken \<Rightarrow> (stats s)\<lparr>damageTaken := damageTaken (stats s) + delta\<rparr>)\<rparr>)\<rparr>)"

text \<open>\<open>onCleanup\<close> of the manager: back to the menu, no session, empty history.\<close>

definition onCleanup_state :: "GameStateManager \<Rightarrow> GameStateManager" where
  "onCleanup_state m =
     m\<lparr>currentState := MENU, previousState := MENU, session := None, stateHistory := []\<rparr>"

text \<open>
  The domain events the manager subscribes to in \<open>onInitialize\<close>, with the part of the
  payload the handler reads, and the handler bodies. \<open>GameOverEv hasData\<close> and
  \<open>GameVictoryEv hasData\<close> stand for \<open>GameEvent.GAME_OVER\<close> and \<open>GameEvent.GAME_VICTORY\<close>.
\<close>

datatype SessionEvent =
    GameStartEv
  | GameOverEv bool
  | GameVictoryEv bool
  | GamePauseEv
  | GameResumeEv
  | ScoreUpdateEv string int
  | EnemyDeathEv
  | ItemCollectEv
  | PlayerDamageEv int

fun handleEvent :: "int \<Rightarrow> SessionEvent \<Rightarrow> GameStateManager \<Rightarrow> GameStateManager" where
  "handleEvent now GameStartEv m = setState PLAYING (startNewSession now m)"
| "handleEvent now (GameOverEv d) m = setState GAME_OVER (fst (endSession ''game_over'' d now m))"
| "handleEvent now (GameVictoryEv d) m = setState VICTORY (fst (endSession ''victory'' d now m))"
| "handleEvent now GamePauseEv m = (if currentState m = PLAYING then setState PAUSED m else m)"
| "handleEvent now GameResumeEv m = (if currentState m = PAUSED then setState PLAYING m else m)"
| "handleEvent now (ScoreUpdateEv source delta) m = updateScore source delta m"
| "handleEvent now EnemyDeathEv m = updateStats KillCount 1 m"
| "handleEvent now ItemCollectEv m = updateStats ItemsCollected 1 m"
| "handleEvent now (PlayerDamageEv damage) m = updateStats DamageTaken damage m"

text \<open>A run of the manager: the events delivered in order, each with the clock reading.\<close>

fun deliver :: "(int \<times> SessionEvent) list \<Rightarrow> GameStateManager \<Rightarrow> GameStateManager" where
  "deliver [] m = m"
| "deliver ((now, ev) # evs) m = deliver evs (handleEvent now ev m)"


fun isGameStart :: "SessionEvent \<Rightarrow> bool" where
  "isGameStart GameStartEv = True"
| "isGameStart _ = False"

section \<open>EventBus\<close>

text \<open>
  The members of the enum \<open>GameEvent\<close>. The member \<open>GAME_OVER\<close> is written
  \<open>GAME_OVER_event\<close> here, since the enum \<open>GameState\<close> has a member of the same name.
\<close>

datatype GameEvent =
    SCENE_CHANGE | SCENE_START | SCENE_PAUSE | SCENE_RESUME | SCENE_SHUTDOWN
  | PLAYER_MOVE | PLAYER_IDLE | PLAYER_DAMAGE | PLAYER_DEATH | PLAYER_RESPAWN
  | PLAYER_SHOOT | PLAYER_WEAPON_SWITCH
  | ANIMATION_PLAY | ANIMATION_STOP | ANIMATION_COMPLETE
  | BGM_PLAY | BGM_STOP | BGM_PAUSE | BGM_RESUME | BGM_VOLUME_CHANGE
  | SOUND_EFFECT_PLAY | SOUND_EFFECT_STOP | SOUND_EFFECT_VOLUME_CHANGE
  | GAME_START | GAME_OVER_event | GAME_VICTORY | GAME_PAUSE | GAME_RESUME
  | GAME_TIMER_UPDATE
  | SCORE_UPDATE | SCORE_TIME_BONUS | SCORE_KILL_BONUS
  | ENEMY_SPAWN | ENEMY_DEATH | ENEMY_ATTACK | ENEMY_DIFFICULTY_UPDATE
  | ITEM_COLLECT
  | HAZARD_DAMAGE

text \<open>
  What a JavaScript \<open>Error\<close> thrown by this code base is about, and the result of a call
  that may throw: \<open>Returned s\<close> is the state after a normal return, \<open>Threw e s\<close> the
  state at the moment the exception \<open>e\<close> leaves the call (the assignments made before the
  \<open>throw\<close> stay made).
\<close>

datatype error =
    NotInitializedWithScene
  | PlayerNotSet
  | EnemiesNotInitialized
  | TypeError
  | ListenerError

datatype 's outcome = Returned 's | Threw error 's

fun state_of :: "'s outcome \<Rightarrow> 's" where
  "state_of (Returned s) = s"
| "state_of (Threw e s) = s"

fun returned :: "'s outcome \<Rightarrow> bool" where
  "returned (Returned s) = True"
| "returned (Threw e s) = False"

text \<open>
  A function object is identified by the serial number it got when it was created
  (\<open>Set<Function>\<close> compares by reference). \<open>listeners\<close> is the
  \<open>Map<GameEvent, Set<Function>>\<close>: a \<open>Set\<close> iterates in insertion order, so the set of
  an event is the list of its members in the order in which they were added, without
  repetition. Console output is left out.
\<close>

type_synonym callback = nat

record EventBus =
  listeners :: "GameEvent \<Rightarrow> callback list option"
  debugMode :: bool

definition newEventBus :: EventBus where
  "newEventBus = \<lparr>listeners = (\<lambda>_. None), debugMode = False\<rparr>"

text \<open>\<open>Set.prototype.add\<close> and \<open>Set.prototype.delete\<close> on the insertion-ordered list.\<close>

definition set_add :: "callback \<Rightarrow> callback list \<Rightarrow> callback list" where
  "set_add cb cs = (if cb \<in> set cs then cs else cs @ [cb])"

definition set_delete :: "callback \<Rightarrow> callback list \<Rightarrow> callback list" where
  "set_delete cb cs = removeAll cb cs"

definition on :: "GameEvent \<Rightarrow> callback \<Rightarrow> EventBus \<Rightarrow> EventBus" where
  "on event cb bus =
     (let present = (case listeners bus event of None \<Rightarrow> [] | Some cs \<Rightarrow> cs)
      in bus\<lparr>listeners := (listeners bus)(event \<mapsto> set_add cb present)\<rparr>)"

definition off :: "GameEvent \<Rightarrow> callback \<Rightarrow> EventBus \<Rightarrow> EventBus" where
  "off event cb bus =
     (case listeners bus event of
        None \<Rightarrow> bus
      | Some cs \<Rightarrow>
          let cs' = set_delete cb cs
          in if length cs' = 0
             then bus\<lparr>listeners := (listeners bus)(event := None)\<rparr>
             else bus\<lparr>listeners := (listeners bus)(event \<mapsto> cs')\<rparr>)"

definition removeAllListeners :: "GameEvent option \<Rightarrow> EventBus \<Rightarrow> EventBus" where
  "removeAllListeners event bus =
     (case event of
        Some ev \<Rightarrow> bus\<lparr>listeners := (listeners bus)(ev := None)\<rparr>
      | None \<Rightarrow> bus\<lparr>listeners := (\<lambda>_. None)\<rparr>)"

definition hasListeners :: "GameEvent \<Rightarrow> EventBus \<Rightarrow> bool" where
  "hasListeners event bus =
     (case listeners bus event of None \<Rightarrow> False | Some cs \<Rightarrow> length cs > 0)"

text \<open>\<open>getListenerCount(event)\<close> with an event given: \<open>listeners.get(event)?.size || 0\<close>.\<close>

definition getListenerCount :: "GameEvent \<Rightarrow> EventBus \<Rightarrow> nat" where
  "getListenerCount event bus =
     (case listeners bus event of None \<Rightarrow> 0 | Some cs \<Rightarrow> length cs)"

text \<open>The functions registered for an event, in the order of the \<open>Set\<close>.\<close>

definition callbacksOf :: "EventBus \<Rightarrow> GameEvent \<Rightarrow> callback list" where
  "callbacksOf bus event = (case listeners bus event of None \<Rightarrow> [] | Some cs \<Rightarrow> cs)"

text \<open>
  \<open>emit\<close>. The bodies of the registered functions are given by \<open>run\<close>: \<open>run cb data w\<close>
  is what calling the function \<open>cb\<close> with the payload \<open>data\<close> (\<open>None\<close> for
  \<open>undefined\<close>, in which case the function is called without argument) does to the state
  \<open>w\<close> the listeners act on. Listeners are taken not to register or remove listeners of
  the event being dispatched while it is dispatched, as is the case for every listener of
  this code base. The result of the dispatch carries the state after the last listener,
  the functions called, in the order of the calls, and the functions whose exception was
  caught and logged with \<open>console.error\<close>.
\<close>

record 'w Dispatch =
  world :: 'w
  called :: "callback list"
  logged :: "(callback \<times> error) list"

text \<open>The body of the \<open>forEach\<close>: one call inside \<open>try\<close>/\<open>catch\<close>.\<close>

definition callListener ::
  "(callback \<Rightarrow> 'd option \<Rightarrow> 'w \<Rightarrow> 'w outcome) \<Rightarrow> 'd option \<Rightarrow> callback \<Rightarrow>
   'w Dispatch \<Rightarrow> 'w Dispatch outcome" where
  "callListener run data cb d =
     (case run cb data (world d) of
        Returned w' \<Rightarrow> Returned (d\<lparr>world := w', called := called d @ [cb]\<rparr>)
      | Threw e w' \<Rightarrow>
          Returned (d\<lparr>world := w', called := called d @ [cb], logged := logged d @ [(cb, e)]\<rparr>))"

fun forEach ::
  "(callback \<Rightarrow> 'd option \<Rightarrow> 'w \<Rightarrow> 'w outcome) \<Rightarrow> 'd option \<Rightarrow> callback list \<Rightarrow>
   'w Dispatch \<Rightarrow> 'w Dispatch outcome" where
  "forEach run data [] d = Returned d"
| "forEach run data (cb # cbs) d =
     (case callListener run data cb d of
        Threw e d' \<Rightarrow> Threw e d'
      | Returned d' \<Rightarrow> forEach run data cbs d')"

definition emit ::
  "(callback \<Rightarrow> 'd option \<Rightarrow> 'w \<Rightarrow> 'w outcome) \<Rightarrow> EventBus \<Rightarrow> GameEvent \<Rightarrow> 'd option \<Rightarrow>
   'w \<Rightarrow> 'w Dispatch outcome" where
  "emit run bus event data w =
     (case listeners bus event of
        None \<Rightarrow> Returned \<lparr>world = w, called = [], logged = []\<rparr>
      | Some callbacks \<Rightarrow> forEach run data callbacks \<lparr>world = w, called = [], logged = []\<rparr>)"

text \<open>
  The state the listeners are threaded through by a dispatch that calls the functions
  \<open>cbs\<close> one after the other, whether they return or throw.
\<close>

fun threaded ::
  "(callback \<Rightarrow> 'd option \<Rightarrow> 'w \<Rightarrow> 'w outcome) \<Rightarrow> 'd option \<Rightarrow> callback list \<Rightarrow> 'w \<Rightarrow> 'w" where
  "threaded run data [] w = w"
| "threaded run data (cb # cbs) w = threaded run data cbs (state_of (run cb data w))"

text \<open>The functions among \<open>cbs\<close> that throw when called in that order, with what they throw.\<close>

fun throwers ::
  "(callback \<Rightarrow> 'd option \<Rightarrow> 'w \<Rightarrow> 'w outcome) \<Rightarrow> 'd option \<Rightarrow> callback list \<Rightarrow> 'w \<Rightarrow>
   (callback \<times> error) list" where
  "throwers run data [] w = []"
| "throwers run data (cb # cbs) w =
     (case run cb data w of
        Returned w' \<Rightarrow> throwers run data cbs w'
      | Threw e w' \<Rightarrow> (cb, e) # throwers run data cbs w')"

text \<open>
  Three sample listeners that append their own number to a list; the second one throws
  after doing so.
\<close>

definition sampleListeners :: "callback \<Rightarrow> unit option \<Rightarrow> nat list \<Rightarrow> nat list outcome" where
  "sampleListeners cb data w =
     (if cb = 1 then Threw ListenerError (w @ [cb]) else Returned (w @ [cb]))"

text \<open>
  The listeners of an event after a series of registrations on an empty bus:
  the functions in the order of their first registration.
\<close>

fun registerAll :: "GameEvent \<Rightarrow> callback list \<Rightarrow> EventBus \<Rightarrow> EventBus" where
  "registerAll event [] bus = bus"
| "registerAll event (cb # cbs) bus = registerAll event cbs (on event cb bus)"

section \<open>BaseManager: the lifecycle of a manager\<close>

text \<open>
  The fields of \<open>BaseManager\<close>, together with the module-level singleton \<open>eventBus\<close> the
  class registers its shutdown listener on, and with the number of function objects
  created so far: the arrow function that \<open>initialize\<close> creates gets this number as its
  identity. A subclass extends the record; its hooks \<open>onInitialize\<close> and \<open>onCleanup\<close> are
  arguments of the functions below.
\<close>

record 'sc BaseManager =
  scene :: "'sc option"
  initialized :: bool
  eventBus :: EventBus
  functionsCreated :: nat

definition initialize ::
  "(('sc, 'z) BaseManager_scheme \<Rightarrow> ('sc, 'z) BaseManager_scheme outcome) \<Rightarrow> 'sc \<Rightarrow>
   ('sc, 'z) BaseManager_scheme \<Rightarrow> ('sc, 'z) BaseManager_scheme outcome" where
  "initialize onInitialize sc m =
     (if initialized m then Returned m
      else
        case onInitialize (m\<lparr>scene := Some sc, initialized := True\<rparr>) of
          Threw e m1 \<Rightarrow> Threw e m1
        | Returned m1 \<Rightarrow>
            Returned (m1\<lparr>eventBus := on SCENE_SHUTDOWN (functionsCreated m1) (eventBus m1),
                         functionsCreated := Suc (functionsCreated m1)\<rparr>))"

definition cleanup ::
  "(('sc, 'z) BaseManager_scheme \<Rightarrow> ('sc, 'z) BaseManager_scheme outcome) \<Rightarrow>
   ('sc, 'z) BaseManager_scheme \<Rightarrow> ('sc, 'z) BaseManager_scheme outcome" where
  "cleanup onCleanup m =
     (case onCleanup m of
        Threw e m1 \<Rightarrow> Threw e m1
      | Returned m1 \<Rightarrow> Returned (m1\<lparr>initialized := False, scene := None\<rparr>))"

definition isInitialized :: "('sc, 'z) BaseManager_scheme \<Rightarrow> bool" where
  "isInitialized m = (initialized m \<and> scene m \<noteq> None)"

definition getScene :: "('sc, 'z) BaseManager_scheme \<Rightarrow> error + 'sc" where
  "getScene m = (case scene m of None \<Rightarrow> Inl NotInitializedWithScene | Some sc \<Rightarrow> Inr sc)"

text \<open>The hooks of \<open>BaseManager\<close> itself: empty bodies.\<close>

definition onInitialize_base ::
  "('sc, 'z) BaseManager_scheme \<Rightarrow> ('sc, 'z) BaseManager_scheme outcome" where
  "onInitialize_base m = Returned m"

definition onCleanup_base ::
  "('sc, 'z) BaseManager_scheme \<Rightarrow> ('sc, 'z) BaseManager_scheme outcome" where
  "onCleanup_base m = Returned m"


text \<open>
  A sequence of calls of \<open>initialize\<close> and \<open>cleanup\<close> on one manager. The second component
  counts the calls of \<open>initialize\<close> that found the manager not initialized, that is the
  calls that were not rejected as duplicates. A call that throws ends the sequence.
\<close>

datatype 'sc LifecycleCall = Initialize 'sc | Cleanup

fun lifecycle ::
  "(('sc, 'z) BaseManager_scheme \<Rightarrow> ('sc, 'z) BaseManager_scheme outcome) \<Rightarrow>
   (('sc, 'z) BaseManager_scheme \<Rightarrow> ('sc, 'z) BaseManager_scheme outcome) \<Rightarrow>
   'sc LifecycleCall list \<Rightarrow> ('sc, 'z) BaseManager_scheme \<times> nat \<Rightarrow>
   (('sc, 'z) BaseManager_scheme \<times> nat) outcome" where
  "lifecycle onInitialize onCleanup [] (m, k) = Returned (m, k)"
| "lifecycle onInitialize onCleanup (Initialize sc # calls) (m, k) =
     (case initialize onInitialize sc m of
        Threw e m1 \<Rightarrow> Threw e (m1, k)
      | Returned m1 \<Rightarrow>
          lifecycle onInitialize onCleanup calls (m1, if initialized m then k else Suc k))"
| "lifecycle onInitialize onCleanup (Cleanup # calls) (m, k) =
     (case cleanup onCleanup m of
        Threw e m1 \<Rightarrow> Threw e (m1, k)
      | Returned m1 \<Rightarrow> lifecycle onInitialize onCleanup calls (m1, k))"

text \<open>
  Every function registered on the bus for the shutdown event was created before now:
  its serial number is below the number of functions created.
\<close>

definition listenersExist :: "('sc, 'z) BaseManager_scheme \<Rightarrow> bool" where
  "listenersExist m =
     list_all (\<lambda>cb. cb < functionsCreated m) (callbacksOf (eventBus m) SCENE_SHUTDOWN)"

text \<open>
  What the lifecycle of the base class asks of the hooks of a subclass. The hook
  \<open>onInitialize\<close> is called with the scene set and the flag raised: it returns, leaves
  both as they are, and does not touch the listeners of the shutdown event (it may
  create functions and register them for other events). The hook \<open>onCleanup\<close> is called
  in any state: it returns and does not touch the listeners of the shutdown event.
\<close>

definition initializeHookOk ::
  "(('sc, 'z) BaseManager_scheme \<Rightarrow> ('sc, 'z) BaseManager_scheme outcome) \<Rightarrow> bool" where
  "initializeHookOk hook =
     (\<forall>m. scene m \<noteq> None \<and> initialized m \<longrightarrow>
          returned (hook m) \<and>
          initialized (state_of (hook m)) \<and>
          scene (state_of (hook m)) = scene m \<and>
          listeners (eventBus (state_of (hook m))) SCENE_SHUTDOWN
            = listeners (eventBus m) SCENE_SHUTDOWN \<and>
          functionsCreated m \<le> functionsCreated (state_of (hook m)))"

definition cleanupHookOk ::
  "(('sc, 'z) BaseManager_scheme \<Rightarrow> ('sc, 'z) BaseManager_scheme outcome) \<Rightarrow> bool" where
  "cleanupHookOk hook =
     (\<forall>m. returned (hook m) \<and>
          listeners (eventBus (state_of (hook m))) SCENE_SHUTDOWN
            = listeners (eventBus m) SCENE_SHUTDOWN \<and>
          functionsCreated m \<le> functionsCreated (state_of (hook m)))"



section \<open>ObjectPoolManager\<close>

text \<open>
  A \<open>PoolableObject\<close> has the flags \<open>active\<close> and \<open>visible\<close> (set by \<open>setActive\<close> and
  \<open>setVisible\<close>) and an optional method \<open>destroy\<close>: \<open>hasDestroy\<close> tells whether the object
  has it, \<open>destroyed\<close> whether it has been called. The pools hold references: an object is
  a number, and \<open>objects\<close> is the store that gives each reference its object. \<open>indexOf\<close>
  and \<open>includes\<close> compare references.
\<close>

record PoolableObject =
  active :: bool
  visible :: bool
  hasDestroy :: bool
  destroyed :: bool

type_synonym ref = nat

record ObjectPoolManager =
  pools :: "string \<Rightarrow> ref list option"
  maxPoolSizes :: "string \<Rightarrow> int option"
  objects :: "ref \<Rightarrow> PoolableObject"

definition setMaxPoolSize :: "string \<Rightarrow> int \<Rightarrow> ObjectPoolManager \<Rightarrow> ObjectPoolManager" where
  "setMaxPoolSize poolKey maxSize s = s\<lparr>maxPoolSizes := (maxPoolSizes s)(poolKey \<mapsto> maxSize)\<rparr>"

text \<open>\<open>this.maxPoolSizes.get(poolKey) || 50\<close>: 50 when the key is unset and when it is set to 0.\<close>

definition maxSizeOf :: "ObjectPoolManager \<Rightarrow> string \<Rightarrow> int" where
  "maxSizeOf s poolKey =
     (case maxPoolSizes s poolKey of
        None \<Rightarrow> 50
      | Some n \<Rightarrow> if n = 0 then 50 else n)"

definition setActive :: "bool \<Rightarrow> PoolableObject \<Rightarrow> PoolableObject" where
  "setActive v ob = ob\<lparr>active := v\<rparr>"

definition setVisible :: "bool \<Rightarrow> PoolableObject \<Rightarrow> PoolableObject" where
  "setVisible v ob = ob\<lparr>visible := v\<rparr>"

text \<open>\<open>if (obj.destroy) obj.destroy()\<close>.\<close>

definition destroyIfPossible :: "PoolableObject \<Rightarrow> PoolableObject" where
  "destroyIfPossible ob = (if hasDestroy ob then ob\<lparr>destroyed := True\<rparr> else ob)"

text \<open>The first inactive object of the pool, as the \<open>for\<close> loop of \<open>getFromPool\<close> finds it.\<close>

fun firstInactive :: "(ref \<Rightarrow> PoolableObject) \<Rightarrow> ref list \<Rightarrow> ref option" where
  "firstInactive store [] = None"
| "firstInactive store (r # rs) =
     (if \<not> active (store r) then Some r else firstInactive store rs)"

text \<open>
  \<open>getFromPool poolKey factory s\<close>: the factory creates an object in the store and returns
  its reference. The result is the reference handed out and the state after the call.
\<close>

definition getFromPool ::
  "string \<Rightarrow> ((ref \<Rightarrow> PoolableObject) \<Rightarrow> ref \<times> (ref \<Rightarrow> PoolableObject)) \<Rightarrow>
   ObjectPoolManager \<Rightarrow> ref \<times> ObjectPoolManager" where
  "getFromPool poolKey factory s =
     (let pool = (case pools s poolKey of None \<Rightarrow> [] | Some p \<Rightarrow> p)
      in case firstInactive (objects s) pool of
           Some r \<Rightarrow>
             (r, s\<lparr>pools := (pools s)(poolKey \<mapsto> pool),
                   objects := (objects s)(r := setVisible True (setActive True (objects s r)))\<rparr>)
         | None \<Rightarrow>
             let (newObj, store) = factory (objects s)
             in (newObj, s\<lparr>pools := (pools s)(poolKey \<mapsto> pool @ [newObj]), objects := store\<rparr>))"

text \<open>\<open>pool.indexOf(obj)\<close>, with \<open>None\<close> for \<open>-1\<close>, and \<open>pool.splice(index, 1)\<close>.\<close>

fun indexOf :: "ref list \<Rightarrow> ref \<Rightarrow> nat option" where
  "indexOf [] r = None"
| "indexOf (q # qs) r = (if q = r then Some 0 else map_option Suc (indexOf qs r))"

definition splice1 :: "nat \<Rightarrow> ref list \<Rightarrow> ref list" where
  "splice1 i pool = take i pool @ drop (Suc i) pool"

definition returnToPool :: "string \<Rightarrow> ref \<Rightarrow> ObjectPoolManager \<Rightarrow> ObjectPoolManager" where
  "returnToPool poolKey obj s =
     (case pools s poolKey of
        None \<Rightarrow> s
      | Some pool \<Rightarrow>
          if int (length pool) \<ge> maxSizeOf s poolKey
          then
            (case indexOf pool obj of
               None \<Rightarrow> s
             | Some i \<Rightarrow>
                 s\<lparr>pools := (pools s)(poolKey \<mapsto> splice1 i pool),
                   objects := (objects s)(obj := destroyIfPossible (objects s obj))\<rparr>)
          else
            let store = (objects s)(obj := setVisible False (setActive False (objects s obj)))
            in if obj \<in> set pool
               then s\<lparr>objects := store\<rparr>
               else s\<lparr>pools := (pools s)(poolKey \<mapsto> pool @ [obj]), objects := store\<rparr>)"

definition clearPool :: "string \<Rightarrow> ObjectPoolManager \<Rightarrow> ObjectPoolManager" where
  "clearPool poolKey s =
     (case pools s poolKey of
        None \<Rightarrow> s
      | Some pool \<Rightarrow>
          s\<lparr>pools := (pools s)(poolKey \<mapsto> []),
            objects := fold (\<lambda>r store. store(r := destroyIfPossible (store r))) pool (objects s)\<rparr>)"

text \<open>\<open>getPoolInfo(poolKey).total\<close>: the number of objects the pool tracks.\<close>

definition poolTotal :: "ObjectPoolManager \<Rightarrow> string \<Rightarrow> nat" where
  "poolTotal s poolKey = (case pools s poolKey of None \<Rightarrow> 0 | Some pool \<Rightarrow> length pool)"

text \<open>A sequence of calls of the pool manager on one key, and a sequence of returns.\<close>

datatype PoolCall =
    GetFromPool "(ref \<Rightarrow> PoolableObject) \<Rightarrow> ref \<times> (ref \<Rightarrow> PoolableObject)"
  | ReturnToPool ref
  | SetMaxPoolSize int

fun poolCall :: "string \<Rightarrow> PoolCall \<Rightarrow> ObjectPoolManager \<Rightarrow> ObjectPoolManager" where
  "poolCall poolKey (GetFromPool factory) s = snd (getFromPool poolKey factory s)"
| "poolCall poolKey (ReturnToPool obj) s = returnToPool poolKey obj s"
| "poolCall poolKey (SetMaxPoolSize n) s = setMaxPoolSize poolKey n s"

fun poolCalls :: "string \<Rightarrow> PoolCall list \<Rightarrow> ObjectPoolManager \<Rightarrow> ObjectPoolManager" where
  "poolCalls poolKey [] s = s"
| "poolCalls poolKey (c # cs) s = poolCalls poolKey cs (poolCall poolKey c s)"

fun returnAll :: "string \<Rightarrow> ref list \<Rightarrow> ObjectPoolManager \<Rightarrow> ObjectPoolManager" where
  "returnAll poolKey [] s = s"
| "returnAll poolKey (obj # objs) s = returnAll poolKey objs (returnToPool poolKey obj s)"

text \<open>
  A factory that creates the object \<open>r\<close>, active and visible, as the constructors of the
  pooled sprites do.
\<close>

definition createAt ::
  "ref \<Rightarrow> (ref \<Rightarrow> PoolableObject) \<Rightarrow> ref \<times> (ref \<Rightarrow> PoolableObject)" where
  "createAt r store =
     (r, store(r := \<lparr>active = True, visible = True, hasDestroy = True, destroyed = False\<rparr>))"

text \<open>A manager with no pool and no configured size; every reference is a fresh sprite.\<close>

definition newObjectPoolManager :: ObjectPoolManager where
  "newObjectPoolManager =
     \<lparr>pools = (\<lambda>_. None), maxPoolSizes = (\<lambda>_. None),
      objects = (\<lambda>_. \<lparr>active = True, visible = True, hasDestroy = True, destroyed = False\<rparr>)\<rparr>"

section \<open>Numbers\<close>

text \<open>
  The weights of the spawner and the draw of \<open>Math.random\<close> are values of the type
  \<open>number\<close> of the language, IEEE 754 binary64. \<open>Finite m e\<close> stands for the number
  \<open>m * 2^e\<close>; a double is a number that can be written so with \<open>\<bar>m\<bar> < 2^53\<close>,
  \<open>- 1074 \<le> e\<close> and magnitude below \<open>2^1024\<close>. The two zeros are one value here: a
  comparison does not tell them apart, and nothing below divides.
\<close>

datatype number = Finite int int | PlusInfinity | MinusInfinity | NaN

definition zero :: number where
  "zero = Finite 0 0"

definition ofInt :: "int \<Rightarrow> number" where
  "ofInt k = Finite k 0"

text \<open>The real number a finite value stands for (\<open>0\<close> for the others, which stand for none).\<close>

fun valueOf :: "number \<Rightarrow> real" where
  "valueOf (Finite m e) =
     (if 0 \<le> e then of_int (m * 2 ^ nat e) else of_int m / 2 ^ nat (- e))"
| "valueOf PlusInfinity = 0"
| "valueOf MinusInfinity = 0"
| "valueOf NaN = 0"

text \<open>
  Rounding to the nearest double, ties to even. \<open>shiftNeeded n\<close> is the number of low bits
  that a mantissa \<open>n\<close> has beyond 53; a result below the normal range keeps the exponent
  \<open>- 1074\<close> of the subnormal doubles, so that there the mantissa loses more bits. A
  mantissa that rounding carries up to \<open>2^53\<close> is halved. A rounded magnitude of \<open>2^1024\<close>
  or more overflows to the infinity of its sign.
\<close>

function shiftNeeded :: "int \<Rightarrow> nat" where
  "shiftNeeded n = (if n < 2 ^ 53 then 0 else Suc (shiftNeeded (n div 2)))"
  by pat_completeness auto
termination
  by (relation "measure nat") auto

declare shiftNeeded.simps [simp del]

definition overflows :: "int \<Rightarrow> int \<Rightarrow> bool" where
  "overflows m e = (m \<noteq> 0 \<and> (1024 < e \<or> 2 ^ nat (1024 - e) \<le> \<bar>m\<bar>))"

definition finish :: "int \<Rightarrow> int \<Rightarrow> number" where
  "finish m e =
     (if overflows m e then (if 0 < m then PlusInfinity else MinusInfinity) else Finite m e)"

definition roundToDouble :: "int \<Rightarrow> int \<Rightarrow> number" where
  "roundToDouble m e =
     (if m = 0 then Finite 0 0
      else
        let k = max (int (shiftNeeded \<bar>m\<bar>)) (- 1074 - e)
        in if k \<le> 0 then finish m e
           else
             let q = m div 2 ^ nat k;
                 rest = m mod 2 ^ nat k;
                 half = 2 ^ nat (k - 1);
                 q' = (if rest < half then q
                       else if half < rest then q + 1
                       else if even q then q else q + 1)
             in if \<bar>q'\<bar> = 2 ^ 53 then finish (q' div 2) (e + k + 1) else finish q' (e + k))"

text \<open>
  The operators \<open>+\<close>, \<open>-\<close>, \<open>*\<close>, \<open><=\<close> and \<open><\<close> of the language on numbers. The
  arithmetic ones give the exact result, rounded; the comparisons compare the exact
  values and are false on \<open>NaN\<close>; the special values are treated as the standard has
  them.
\<close>

fun negate :: "number \<Rightarrow> number" where
  "negate (Finite m e) = Finite (- m) e"
| "negate PlusInfinity = MinusInfinity"
| "negate MinusInfinity = PlusInfinity"
| "negate NaN = NaN"

fun addNumber :: "number \<Rightarrow> number \<Rightarrow> number" where
  "addNumber (Finite m1 e1) (Finite m2 e2) =
     (let e = min e1 e2
      in roundToDouble (m1 * 2 ^ nat (e1 - e) + m2 * 2 ^ nat (e2 - e)) e)"
| "addNumber NaN _ = NaN"
| "addNumber _ NaN = NaN"
| "addNumber PlusInfinity MinusInfinity = NaN"
| "addNumber MinusInfinity PlusInfinity = NaN"
| "addNumber PlusInfinity _ = PlusInfinity"
| "addNumber MinusInfinity _ = MinusInfinity"
| "addNumber _ PlusInfinity = PlusInfinity"
| "addNumber _ MinusInfinity = MinusInfinity"

definition subNumber :: "number \<Rightarrow> number \<Rightarrow> number" where
  "subNumber a b = addNumber a (negate b)"

fun signOf :: "number \<Rightarrow> int" where
  "signOf (Finite m e) = sgn m"
| "signOf PlusInfinity = 1"
| "signOf MinusInfinity = - 1"
| "signOf NaN = 0"

fun mulNumber :: "number \<Rightarrow> number \<Rightarrow> number" where
  "mulNumber (Finite m1 e1) (Finite m2 e2) = roundToDouble (m1 * m2) (e1 + e2)"
| "mulNumber NaN _ = NaN"
| "mulNumber _ NaN = NaN"
| "mulNumber a b =
     (if signOf a * signOf b = 0 then NaN
      else if 0 < signOf a * signOf b then PlusInfinity else MinusInfinity)"

fun lessEqNumber :: "number \<Rightarrow> number \<Rightarrow> bool" where
  "lessEqNumber (Finite m1 e1) (Finite m2 e2) =
     (let e = min e1 e2 in m1 * 2 ^ nat (e1 - e) \<le> m2 * 2 ^ nat (e2 - e))"
| "lessEqNumber NaN _ = False"
| "lessEqNumber _ NaN = False"
| "lessEqNumber MinusInfinity _ = True"
| "lessEqNumber _ PlusInfinity = True"
| "lessEqNumber PlusInfinity _ = False"
| "lessEqNumber _ MinusInfinity = False"

fun lessNumber :: "number \<Rightarrow> number \<Rightarrow> bool" where
  "lessNumber (Finite m1 e1) (Finite m2 e2) =
     (let e = min e1 e2 in m1 * 2 ^ nat (e1 - e) < m2 * 2 ^ nat (e2 - e))"
| "lessNumber NaN _ = False"
| "lessNumber _ NaN = False"
| "lessNumber PlusInfinity _ = False"
| "lessNumber _ MinusInfinity = False"
| "lessNumber _ PlusInfinity = True"
| "lessNumber MinusInfinity _ = True"

text \<open>
  The form in which the operations leave a value: a finite one has a mantissa of at most
  53 bits, an exponent of at least \<open>- 1074\<close>, and a magnitude below \<open>2^1024\<close>.
\<close>

fun isDouble :: "number \<Rightarrow> bool" where
  "isDouble (Finite m e) = (\<bar>m\<bar> < 2 ^ 53 \<and> - 1074 \<le> e \<and> \<not> overflows m e)"
| "isDouble PlusInfinity = True"
| "isDouble MinusInfinity = True"
| "isDouble NaN = True"

section \<open>EnemySpawner\<close>

text \<open>
  The host engine is seen through what the spawner reads and calls. A scene gives the
  rectangle \<open>cameras.main.worldView\<close>; the player is a sprite with a position; an enemy
  is what the constructor of \<open>BattleEnemy\<close> and \<open>setPlayer\<close> are given. Coordinates
  and distances are real numbers: the statements on the spawner do not depend on how
  they round. The weights of the enemy types and the draw of \<open>Math.random\<close> are numbers
  of the language, with their rounding.
\<close>

record Rect =
  rect_left :: real
  rect_right :: real
  rect_top :: real
  rect_bottom :: real

record Scene =
  worldView :: Rect

record Sprite =
  sprite_x :: real
  sprite_y :: real

record BattleEnemy =
  enemyType :: string
  enemy_x :: real
  enemy_y :: real
  enemy_player :: Sprite

text \<open>
  A physics group of the host: \<open>children\<close> is \<open>None\<close> once the host has destroyed the
  group (\<open>this.enemies.children\<close> is then undefined); \<open>clearThrows\<close> tells that the host's
  \<open>clear\<close> raises on this group, the fault the \<open>try\<close>/\<open>catch\<close> blocks of the spawner are
  written for. \<open>clear(true, true)\<close> removes every child and destroys it: \<open>group_clear\<close>
  returns the emptied group and the children it destroyed, or \<open>None\<close> when it throws.
  \<open>add\<close> inserts a newly constructed enemy; the group is created with
  \<open>maxSize: this.maxEnemies\<close>, so that under a fixed configuration the capacity check of
  the host agrees with the one \<open>spawnEnemy\<close> makes before it.
\<close>

record Group =
  children :: "BattleEnemy list option"
  clearThrows :: bool

definition newGroup :: Group where
  "newGroup = \<lparr>children = Some [], clearThrows = False\<rparr>"

definition group_clear :: "Group \<Rightarrow> (Group \<times> BattleEnemy list) option" where
  "group_clear g =
     (if clearThrows g then None
      else case children g of
             None \<Rightarrow> None
           | Some es \<Rightarrow> Some (g\<lparr>children := Some []\<rparr>, es))"

definition group_add :: "BattleEnemy \<Rightarrow> Group \<Rightarrow> Group" where
  "group_add e g = g\<lparr>children := map_option (\<lambda>es. es @ [e]) (children g)\<rparr>"

text \<open>A timer event of the scene clock that calls \<open>spawnEnemy\<close> when it fires.\<close>

record TimerEvent =
  delay :: int
  loop :: bool

text \<open>
  The fields of \<open>EnemySpawner\<close> on top of those of \<open>BaseManager\<close>. Three more fields hold
  what the calls of the spawner do to its surroundings: \<open>scheduled\<close> are the timer events
  of the scene clock that will call \<open>spawnEnemy\<close>, \<open>destroyedEnemies\<close> the enemies that
  \<open>clear(true, true)\<close> destroyed, \<open>spawnEvents\<close> the \<open>ENEMY_SPAWN\<close> events emitted
  (type and position).
\<close>

record EnemySpawner = "Scene BaseManager" +
  enemies :: "Group option"
  player :: "Sprite option"
  spawnTimer :: "TimerEvent option"
  spawnInterval :: int
  maxEnemies :: int
  spawnDistance :: real
  enemyWeights :: "(string \<times> number) list"
  scheduled :: "TimerEvent list"
  destroyedEnemies :: "BattleEnemy list"
  spawnEvents :: "(string \<times> real \<times> real) list"

definition newEnemySpawner :: EnemySpawner where
  "newEnemySpawner =
     \<lparr>scene = None, initialized = False, eventBus = newEventBus, functionsCreated = 0,
      enemies = None, player = None, spawnTimer = None,
      spawnInterval = 1500, maxEnemies = 15, spawnDistance = 400,
      enemyWeights = [(''slime'', ofInt 50), (''flying_creature'', ofInt 30),
                      (''goblin'', ofInt 20)],
      scheduled = [], destroyedEnemies = [], spawnEvents = []\<rparr>"

definition onInitialize_spawner :: "EnemySpawner \<Rightarrow> EnemySpawner outcome" where
  "onInitialize_spawner s =
     (let s1 =
        (case enemies s of
           None \<Rightarrow> s
         | Some g \<Rightarrow>
             if children g \<noteq> None
             then (case group_clear g of
                     None \<Rightarrow> s
                   | Some (g', gone) \<Rightarrow>
                       s\<lparr>enemies := Some g', destroyedEnemies := destroyedEnemies s @ gone\<rparr>)
             else s)
      in case getScene s1 of
           Inl e \<Rightarrow> Threw e s1
         | Inr sc \<Rightarrow> Returned (s1\<lparr>enemies := Some newGroup\<rparr>))"

definition stop :: "EnemySpawner \<Rightarrow> EnemySpawner" where
  "stop s =
     (case spawnTimer s of
        None \<Rightarrow> s
      | Some t \<Rightarrow> s\<lparr>scheduled := remove1 t (scheduled s), spawnTimer := None\<rparr>)"

definition clearAllEnemies :: "EnemySpawner \<Rightarrow> EnemySpawner" where
  "clearAllEnemies s =
     (case enemies s of
        None \<Rightarrow> s
      | Some g \<Rightarrow>
          (case children g of
             None \<Rightarrow> s
           | Some _ \<Rightarrow>
               (case group_clear g of
                  None \<Rightarrow> s\<lparr>enemies := None\<rparr>
                | Some (g', gone) \<Rightarrow>
                    s\<lparr>enemies := Some g', destroyedEnemies := destroyedEnemies s @ gone\<rparr>)))"

definition onCleanup_spawner :: "EnemySpawner \<Rightarrow> EnemySpawner outcome" where
  "onCleanup_spawner s = Returned ((clearAllEnemies (stop s))\<lparr>player := None\<rparr>)"

definition setPlayer :: "Sprite \<Rightarrow> EnemySpawner \<Rightarrow> EnemySpawner" where
  "setPlayer p s = s\<lparr>player := Some p\<rparr>"

definition ensurePlayerSet :: "EnemySpawner \<Rightarrow> error option" where
  "ensurePlayerSet s = (case player s of None \<Rightarrow> Some PlayerNotSet | Some _ \<Rightarrow> None)"

definition start :: "EnemySpawner \<Rightarrow> EnemySpawner outcome" where
  "start s =
     (case ensurePlayerSet s of
        Some e \<Rightarrow> Threw e s
      | None \<Rightarrow>
          (case getScene s of
             Inl e \<Rightarrow> Threw e s
           | Inr sc \<Rightarrow>
               let calls = map (\<lambda>i. \<lparr>delay = int i * 200, loop = False\<rparr>) [0..<3];
                   timer = \<lparr>delay = spawnInterval s, loop = True\<rparr>
               in Returned (s\<lparr>scheduled := scheduled s @ calls @ [timer],
                              spawnTimer := Some timer\<rparr>)))"

text \<open>
  The loop of \<open>getRandomEnemyType\<close>: \<open>None\<close> when the loop ends without \<open>return\<close>, so that
  the statement after the loop is reached.
\<close>

fun walkWeights :: "(string \<times> number) list \<Rightarrow> number \<Rightarrow> string option" where
  "walkWeights [] random = None"
| "walkWeights (item # rest) random =
     (let random' = subNumber random (snd item)
      in if lessEqNumber random' zero then Some (fst item) else walkWeights rest random')"

definition totalWeight :: "(string \<times> number) list \<Rightarrow> number" where
  "totalWeight table = foldl (\<lambda>sum item. addNumber sum (snd item)) zero table"

text \<open>\<open>weightedChoice table r\<close> is the function body for the draw \<open>r = Math.random() * totalWeight\<close>.\<close>

definition weightedChoice :: "(string \<times> number) list \<Rightarrow> number \<Rightarrow> string" where
  "weightedChoice table r = (case walkWeights table r of Some t \<Rightarrow> t | None \<Rightarrow> ''slime'')"

definition getRandomEnemyType :: "number \<Rightarrow> EnemySpawner \<Rightarrow> string" where
  "getRandomEnemyType mathRandom s =
     weightedChoice (enemyWeights s) (mulNumber mathRandom (totalWeight (enemyWeights s)))"

text \<open>
  The words of the specification: the first entry of the table whose cumulative weight
  is at least the draw, the weights and the draw taken as the real numbers they stand
  for.
\<close>

definition cumulativeWeight :: "(string \<times> number) list \<Rightarrow> nat \<Rightarrow> real" where
  "cumulativeWeight table i = sum_list (map (\<lambda>item. valueOf (snd item)) (take (Suc i) table))"

definition firstReaching :: "(string \<times> number) list \<Rightarrow> real \<Rightarrow> string option" where
  "firstReaching table r =
     map_option (\<lambda>i. fst (table ! i))
       (find (\<lambda>i. cumulativeWeight table i \<ge> r) [0..<length table])"

text \<open>
  A table of whole weights, as the one of the spawner is (50, 30, 20), and a table of
  fractions that add up to about the same shares: the doubles nearest to 0.03, 0.11 and
  0.15. \<open>fractionDraw\<close> is the double nearest to 0.29, and \<open>highDraw\<close> a result of
  \<open>Math.random\<close> just below 1, \<open>1 - 2^-52\<close>.
\<close>

definition weightTable :: "(string \<times> int) list \<Rightarrow> (string \<times> number) list" where
  "weightTable entries = map (\<lambda>entry. (fst entry, ofInt (snd entry))) entries"

definition fractionTable :: "(string \<times> number) list" where
  "fractionTable =
     [(''slime'', Finite 1080863910568919 (- 55)),
      (''flying_creature'', Finite 7926335344172073 (- 56)),
      (''goblin'', Finite 5404319552844595 (- 55))]"

definition fractionDraw :: number where
  "fractionDraw = Finite 5224175567749775 (- 54)"

definition highDraw :: number where
  "highDraw = Finite 4503599627370495 (- 52)"

text \<open>
  What one call of \<open>spawnEnemy\<close> draws from the host: \<open>Math.random()\<close> for the type, the
  four results of \<open>Phaser.Math.Between\<close> for the free coordinate of each edge, and the
  choice of \<open>Phaser.Utils.Array.GetRandom\<close>, an index into the candidates (any number
  stands for the index it is congruent to).
\<close>

record Draws =
  typeDraw :: number
  topDraw :: real
  bottomDraw :: real
  leftDraw :: real
  rightDraw :: real
  choice :: nat

definition distanceBetween :: "real \<Rightarrow> real \<Rightarrow> real \<Rightarrow> real \<Rightarrow> real" where
  "distanceBetween x1 y1 x2 y2 = sqrt ((x1 - x2)\<^sup>2 + (y1 - y2)\<^sup>2)"

text \<open>The test of the filter: the candidate is at least \<open>spawnDistance\<close> away from the player.\<close>

definition farEnough :: "real \<Rightarrow> real \<times> real \<Rightarrow> Sprite \<Rightarrow> bool" where
  "farEnough minDistance pos p =
     (distanceBetween (fst pos) (snd pos) (sprite_x p) (sprite_y p) \<ge> minDistance)"

definition getRandomSpawnPosition :: "Draws \<Rightarrow> EnemySpawner \<Rightarrow> error + (real \<times> real)" where
  "getRandomSpawnPosition d s =
     (case player s of
        None \<Rightarrow> Inl PlayerNotSet
      | Some p \<Rightarrow>
          (case getScene s of
             Inl e \<Rightarrow> Inl e
           | Inr sc \<Rightarrow>
               let view = worldView sc;
                   margin = 50;
                   candidates =
                     [(topDraw d, rect_top view - margin),
                      (bottomDraw d, rect_bottom view + margin),
                      (rect_left view - margin, leftDraw d),
                      (rect_right view + margin, rightDraw d)];
                   validCandidates =
                     filter (\<lambda>pos. farEnough (spawnDistance s) pos p) candidates;
                   finalCandidates =
                     (if length validCandidates > 0 then validCandidates else candidates)
               in Inr (finalCandidates ! (choice d mod length finalCandidates))))"

definition spawnEnemy :: "Draws \<Rightarrow> EnemySpawner \<Rightarrow> EnemySpawner outcome" where
  "spawnEnemy d s =
     (case player s of
        None \<Rightarrow> Threw PlayerNotSet s
      | Some p \<Rightarrow>
          (case enemies s of
             None \<Rightarrow> Returned s
           | Some g \<Rightarrow>
               (case children g of
                  None \<Rightarrow> Threw TypeError s
                | Some es \<Rightarrow>
                    if int (length es) \<ge> maxEnemies s then Returned s
                    else
                      let ty = getRandomEnemyType (typeDraw d) s
                      in (case getRandomSpawnPosition d s of
                            Inl e \<Rightarrow> Threw e s
                          | Inr spawnPos \<Rightarrow>
                              let enemy = \<lparr>enemyType = ty, enemy_x = fst spawnPos,
                                           enemy_y = snd spawnPos, enemy_player = p\<rparr>
                              in Returned
                                   (s\<lparr>enemies := Some (group_add enemy g),
                                      spawnEvents := spawnEvents s
                                         @ [(ty, fst spawnPos, snd spawnPos)]\<rparr>)))))"

definition getEnemies :: "EnemySpawner \<Rightarrow> error + Group" where
  "getEnemies s = (case enemies s of None \<Rightarrow> Inl EnemiesNotInitialized | Some g \<Rightarrow> Inr g)"

definition getEnemyCount :: "EnemySpawner \<Rightarrow> error + nat" where
  "getEnemyCount s =
     (case enemies s of
        None \<Rightarrow> Inr 0
      | Some g \<Rightarrow> (case children g of None \<Rightarrow> Inl TypeError | Some es \<Rightarrow> Inr (length es)))"

definition reset :: "EnemySpawner \<Rightarrow> EnemySpawner" where
  "reset s = (state_of (onCleanup_spawner s))\<lparr>initialized := False\<rparr>"

text \<open>
  The enemies the spawner holds: the children of its group, none when it has no group or
  the group has lost its children.
\<close>

definition liveEnemies :: "EnemySpawner \<Rightarrow> BattleEnemy list" where
  "liveEnemies s =
     (case enemies s of
        None \<Rightarrow> []
      | Some g \<Rightarrow> (case children g of None \<Rightarrow> [] | Some es \<Rightarrow> es))"

definition liveCount :: "EnemySpawner \<Rightarrow> nat" where
  "liveCount s = length (liveEnemies s)"

text \<open>
  A run of the spawner under a fixed configuration: the calls of its public methods, the
  firing of a scheduled timer event (the \<open>i\<close>-th of the scene clock; a one-shot event is
  gone once it has fired), and what the host does to the group in between: a collision
  handler destroys the \<open>i\<close>-th enemy, the group starts to fail on \<open>clear\<close>, the group is
  destroyed with its scene. A call that throws leaves the state it had reached.
\<close>

datatype SpawnerStep =
    CallInitialize Scene
  | CallCleanup
  | CallReset
  | CallSetPlayer Sprite
  | CallStart
  | CallStop
  | CallClearAllEnemies
  | TimerFires nat Draws
  | EnemyDestroyed nat
  | GroupFails
  | GroupDestroyed

definition removeChild :: "nat \<Rightarrow> Group \<Rightarrow> Group" where
  "removeChild i g = g\<lparr>children := map_option (\<lambda>es. take i es @ drop (Suc i) es) (children g)\<rparr>"

fun spawnerStep :: "SpawnerStep \<Rightarrow> EnemySpawner \<Rightarrow> EnemySpawner" where
  "spawnerStep (CallInitialize sc) s = state_of (initialize onInitialize_spawner sc s)"
| "spawnerStep CallCleanup s = state_of (cleanup onCleanup_spawner s)"
| "spawnerStep CallReset s = reset s"
| "spawnerStep (CallSetPlayer p) s = setPlayer p s"
| "spawnerStep CallStart s = state_of (start s)"
| "spawnerStep CallStop s = stop s"
| "spawnerStep CallClearAllEnemies s = clearAllEnemies s"
| "spawnerStep (TimerFires i d) s =
     (if i < length (scheduled s)
      then
        let t = scheduled s ! i;
            s1 = (if loop t then s
                  else s\<lparr>scheduled := take i (scheduled s) @ drop (Suc i) (scheduled s)\<rparr>)
        in state_of (spawnEnemy d s1)
      else s)"
| "spawnerStep (EnemyDestroyed i) s = s\<lparr>enemies := map_option (removeChild i) (enemies s)\<rparr>"
| "spawnerStep GroupFails s =
     s\<lparr>enemies := map_option (\<lambda>g. g\<lparr>clearThrows := True\<rparr>) (enemies s)\<rparr>"
| "spawnerStep GroupDestroyed s =
     s\<lparr>enemies := map_option (\<lambda>g. g\<lparr>children := None\<rparr>) (enemies s)\<rparr>"

fun spawnerRun :: "SpawnerStep list \<Rightarrow> EnemySpawner \<Rightarrow> EnemySpawner" where
  "spawnerRun [] s = s"
| "spawnerRun (step # steps) s = spawnerRun steps (spawnerStep step s)"

text \<open>Two scenes with different camera views, for a start and a restart of the game.\<close>

definition firstScene :: Scene where
  "firstScene =
     \<lparr>worldView = \<lparr>rect_left = -500, rect_right = 500, rect_top = -400, rect_bottom = 400\<rparr>\<rparr>"

definition secondScene :: Scene where
  "secondScene =
     \<lparr>worldView = \<lparr>rect_left = 0, rect_right = 1024, rect_top = 0, rect_bottom = 768\<rparr>\<rparr>"

text \<open>
  A spawner as constructed, with the configuration values \<open>maxEnemies\<close> and
  \<open>spawnInterval\<close> set; a player at the origin; the draws of one spawn, where
  \<open>Math.random\<close> gives the double nearest to 0.65.
\<close>

definition configured :: "int \<Rightarrow> int \<Rightarrow> EnemySpawner" where
  "configured cap interval = newEnemySpawner\<lparr>maxEnemies := cap, spawnInterval := interval\<rparr>"

definition samplePlayer :: Sprite where
  "samplePlayer = \<lparr>sprite_x = 0, sprite_y = 0\<rparr>"

definition sampleDraws :: Draws where
  "sampleDraws =
     \<lparr>typeDraw = Finite 5854679515581645 (- 53), topDraw = 0, bottomDraw = 100,
      leftDraw = 0, rightDraw = -100, choice = 0\<rparr>"

text \<open>
  What holds along a run under a fixed configuration: the cap is the configured one, the
  live count is within it, and a spawner without player holds no live enemy.
\<close>

definition withinCap :: "int \<Rightarrow> EnemySpawner \<Rightarrow> bool" where
  "withinCap cap s =
     (maxEnemies s = cap \<and> int (liveCount s) \<le> max cap 0 \<and>
      (player s = None \<longrightarrow> liveCount s = 0))"

text \<open>
  Written out: the spawner after \<open>initialize(firstScene)\<close>, \<open>setPlayer(samplePlayer)\<close> and
  \<open>start()\<close> on a new instance with the given configuration, and the enemy that the first
  timer event then spawns with the sample draws.
\<close>

definition startedSpawner :: "int \<Rightarrow> int \<Rightarrow> EnemySpawner" where
  "startedSpawner cap interval =
     \<lparr>scene = Some firstScene, initialized = True,
      eventBus = \<lparr>listeners = (\<lambda>_. None)(SCENE_SHUTDOWN \<mapsto> [0]), debugMode = False\<rparr>,
      functionsCreated = 1,
      enemies = Some newGroup, player = Some samplePlayer,
      spawnTimer = Some \<lparr>delay = interval, loop = True\<rparr>,
      spawnInterval = interval, maxEnemies = cap, spawnDistance = 400,
      enemyWeights = [(''slime'', ofInt 50), (''flying_creature'', ofInt 30),
                      (''goblin'', ofInt 20)],
      scheduled = [\<lparr>delay = 0, loop = False\<rparr>, \<lparr>delay = 200, loop = False\<rparr>,
                   \<lparr>delay = 400, loop = False\<rparr>, \<lparr>delay = interval, loop = True\<rparr>],
      destroyedEnemies = [], spawnEvents = []\<rparr>"

definition firstEnemy :: BattleEnemy where
  "firstEnemy =
     \<lparr>enemyType = ''flying_creature'', enemy_x = 0, enemy_y = -450,
      enemy_player = samplePlayer\<rparr>"

section \<open>Properties of GameStateManager\<close>

lemma session_setState [simp]: "session (setState st m) = session m"
  by (simp add: setState_def Let_def)

lemma currentState_setState [simp]: "currentState (setState st m) = st"
  by (simp add: setState_def Let_def)

lemma session_endSession_None:
  "(session (fst (endSession reason d now m)) = None) = (session m = None)"
  by (simp add: endSession_def updateSessionTime_def Let_def split: option.splits)

lemma session_updateScore_None:
  "(session (updateScore c d m) = None) = (session m = None)"
  by (simp add: updateScore_def split: option.splits)

lemma session_updateStats_None:
  "(session (updateStats c d m) = None) = (session m = None)"
  by (simp add: updateStats_def split: option.splits)

lemma session_handleEvent:
  "(session (handleEvent now ev m) = None) = (session m = None \<and> \<not> isGameStart ev)"
  by (cases ev) (simp_all add: session_endSession_None session_updateScore_None
      session_updateStats_None startNewSession_def)

lemma session_deliver:
  "(session (deliver evs m) = None)
     = (session m = None \<and> (\<forall>e \<in> set evs. \<not> isGameStart (snd e)))"
proof (induction evs arbitrary: m)
  case Nil
  show ?case by simp
next
  case (Cons e evs)
  obtain now ev where e: "e = (now, ev)" by (cases e)
  have "(session (deliver (e # evs) m) = None) =
        (session (handleEvent now ev m) = None \<and> (\<forall>e \<in> set evs. \<not> isGameStart (snd e)))"
    unfolding e by (simp only: deliver.simps Cons.IH)
  also have "\<dots> = (session m = None \<and> (\<forall>e \<in> set (e # evs). \<not> isGameStart (snd e)))"
    unfolding e session_handleEvent by auto
  finally show ?case .
qed

text \<open>
  C1, as stated: outside Playing and Paused \<open>getSession()\<close> returns null, in particular
  after the handler of \<open>GAME_OVER\<close> has run. The code does not do that: \<open>endSession\<close>
  fills in the final scores and keeps the session, so a game that was started and is
  over is in state \<open>GAME_OVER\<close> with a session that \<open>getSession()\<close> returns.
\<close>

theorem getSession_after_game_over_counterexample:
  "getState (deliver [(1000, GameStartEv), (6000, GameOverEv True)] newGameStateManager)
     = GAME_OVER \<and>
   getSession (deliver [(1000, GameStartEv), (6000, GameOverEv True)] newGameStateManager)
     \<noteq> None"
  by (simp add: getSession_def getState_def newGameStateManager_def setState_def
      startNewSession_def endSession_def updateSessionTime_def Let_def isPlaying_def)

text \<open>
  C1, amended: \<open>getSession()\<close> returns the stored session and is null for a new manager,
  after \<open>onCleanup\<close>, and after any series of the subscribed events that has no
  \<open>GAME_START\<close> in it, and only then. The handlers of \<open>GAME_OVER\<close> and \<open>GAME_VICTORY\<close> move
  the state to GameOver and Victory and leave a session in place when there was one:
  what \<open>getSession()\<close> returns afterwards is null exactly when it was null before.
\<close>

theorem getSession_null_iff_never_started:
  "getSession newGameStateManager = None \<and>
   getSession (onCleanup_state m) = None \<and>
   (getSession (deliver evs newGameStateManager) = None
      \<longleftrightarrow> (\<forall>e \<in> set evs. \<not> isGameStart (snd e))) \<and>
   getState (handleEvent now (GameOverEv d) m) = GAME_OVER \<and>
   getState (handleEvent now (GameVictoryEv d) m) = VICTORY \<and>
   (getSession (handleEvent now (GameOverEv d) m) = None \<longleftrightarrow> getSession m = None) \<and>
   (getSession (handleEvent now (GameVictoryEv d) m) = None \<longleftrightarrow> getSession m = None)"
proof -
  have a: "getSession newGameStateManager = None"
    by (simp add: getSession_def newGameStateManager_def)
  have b: "getSession (onCleanup_state m) = None"
    by (simp add: getSession_def onCleanup_state_def)
  have c: "getSession (deliver evs newGameStateManager) = None
      \<longleftrightarrow> (\<forall>e \<in> set evs. \<not> isGameStart (snd e))"
    unfolding getSession_def session_deliver by (simp add: newGameStateManager_def)
  have d: "getState (handleEvent now (GameOverEv d) m) = GAME_OVER"
    "getState (handleEvent now (GameVictoryEv d) m) = VICTORY"
    by (simp_all add: getState_def)
  have e: "getSession (handleEvent now (GameOverEv d) m) = None \<longleftrightarrow> getSession m = None"
    "getSession (handleEvent now (GameVictoryEv d) m) = None \<longleftrightarrow> getSession m = None"
    unfolding getSession_def session_handleEvent by simp_all
  from a b c d e show ?thesis by blast
qed

theorem getSession_null_iff_never_started_witness:
  "getSession (deliver [(10, GamePauseEv), (20, ScoreUpdateEv ''items'' 3), (30, GameOverEv False)]
      newGameStateManager) = None \<and>
   getState (handleEvent 30 (GameOverEv False) newGameStateManager) = GAME_OVER \<and>
   getSession (handleEvent 30 (GameOverEv False) newGameStateManager) = None"
  using getSession_null_iff_never_started
    [of newGameStateManager
        "[(10, GamePauseEv), (20, ScoreUpdateEv ''items'' 3), (30, GameOverEv False)]"
        30 False]
  by simp

text \<open>
  C9: when a session is frozen, \<open>endSession\<close> sets the time score to
  \<open>floor(elapsed / 1000)\<close> and the total to items + time + kills, whatever the total and
  the time score were. So what \<open>updateScore\<close> added to the total for an unrecognised
  category, or to the time score, does not reach the frozen session: ending the session
  after such an update gives the same result as ending it without the update.
\<close>

theorem endSession_recomputes_total:
  assumes "session m = Some s"
  shows "\<exists>s'. session (fst (endSession reason d now m)) = Some s' \<and>
     elapsedTime s' = (if isPlaying m then now - startTime s else elapsedTime s) \<and>
     time (score s') = elapsedTime s' div 1000 \<and>
     items (score s') = items (score s) \<and>
     kills (score s') = kills (score s) \<and>
     total_score (score s') = items (score s') + time (score s') + kills (score s') \<and>
     (category \<noteq> ''items'' \<and> category \<noteq> ''kills'' \<longrightarrow>
        endSession reason d now (updateScore category delta m) = endSession reason d now m)"
  using assms
  by (simp add: endSession_def updateSessionTime_def updateScore_def Let_def isPlaying_def)

theorem endSession_recomputes_total_witness:
  "\<exists>s'. session (fst (endSession ''game_over'' True 6500
            (deliver [(1000, GameStartEv), (2000, ScoreUpdateEv ''bonus'' 7),
                      (3000, ScoreUpdateEv ''items'' 5)] newGameStateManager))) = Some s' \<and>
        total_score (score s') = 10 \<and> time (score s') = 5 \<and> items (score s') = 5"
proof -
  let ?m = "deliver [(1000, GameStartEv), (2000, ScoreUpdateEv ''bonus'' 7),
                     (3000, ScoreUpdateEv ''items'' 5)] newGameStateManager"
  let ?s = "\<lparr>startTime = 1000, currentTime = 1000, elapsedTime = 0,
             score = \<lparr>total_score = 7, items = 5, time = 0, kills = 0\<rparr>,
             stats = \<lparr>killCount = 0, itemsCollected = 0, damageDealt = 0, damageTaken = 0\<rparr>,
             difficulty = \<lparr>multiplier = 1, level = 1\<rparr>\<rparr>"
  have h: "session ?m = Some ?s"
    by (simp add: newGameStateManager_def startNewSession_def updateScore_def)
  have p: "isPlaying ?m"
    by (simp add: isPlaying_def newGameStateManager_def startNewSession_def updateScore_def)
  from endSession_recomputes_total [OF h, of "''game_over''" True 6500 "''bonus''" 0] p
  show ?thesis by auto
qed

section \<open>Properties of EventBus and BaseManager\<close>

lemma callListener_Returned:
  "callListener run data cb d =
     Returned \<lparr>world = state_of (run cb data (world d)), called = called d @ [cb],
               logged = logged d @ throwers run data [cb] (world d)\<rparr>"
  by (cases d; cases "run cb data (world d)"; simp add: callListener_def)

lemma forEach_result:
  "forEach run data cbs d =
     Returned \<lparr>world = threaded run data cbs (world d), called = called d @ cbs,
               logged = logged d @ throwers run data cbs (world d)\<rparr>"
proof (induction cbs arbitrary: d)
  case Nil
  show ?case by (cases d) simp
next
  case (Cons cb cbs)
  show ?case
    by (cases "run cb data (world d)") (simp_all add: callListener_Returned Cons.IH)
qed

lemma emit_result:
  "emit run bus event data w =
     Returned \<lparr>world = threaded run data (callbacksOf bus event) w,
               called = callbacksOf bus event,
               logged = throwers run data (callbacksOf bus event) w\<rparr>"
  by (simp add: emit_def callbacksOf_def forEach_result split: option.splits)

lemma callbacksOf_on:
  "callbacksOf (on event cb bus) event' =
     (if event' = event then set_add cb (callbacksOf bus event) else callbacksOf bus event')"
  by (simp add: on_def callbacksOf_def Let_def)

lemma callbacksOf_registerAll:
  "distinct (callbacksOf bus event @ cbs) \<Longrightarrow>
   callbacksOf (registerAll event cbs bus) event = callbacksOf bus event @ cbs"
proof (induction cbs arbitrary: bus)
  case Nil
  show ?case by simp
next
  case (Cons cb cbs)
  have step: "callbacksOf (on event cb bus) event = callbacksOf bus event @ [cb]"
    using Cons.prems by (simp add: callbacksOf_on set_add_def)
  have "distinct (callbacksOf (on event cb bus) event @ cbs)"
    using Cons.prems unfolding step by simp
  from Cons.IH [OF this] show ?case unfolding step by simp
qed

text \<open>
  C8: \<open>emit\<close> returns normally whatever the listeners do. It calls the functions
  registered for the event, each once, in the order of registration: the state is
  threaded through all of them, and a listener that throws is logged and does not keep
  the ones after it from being called. Functions registered one after the other on an
  empty bus are held in that order.
\<close>

theorem emit_calls_every_listener:
  "emit run bus event data w =
     Returned \<lparr>world = threaded run data (callbacksOf bus event) w,
               called = callbacksOf bus event,
               logged = throwers run data (callbacksOf bus event) w\<rparr> \<and>
   (distinct cbs \<longrightarrow> callbacksOf (registerAll event cbs newEventBus) event = cbs)"
  using emit_result [of run bus event data w]
    callbacksOf_registerAll [of newEventBus event cbs]
  by (simp add: callbacksOf_def newEventBus_def)

theorem emit_calls_every_listener_witness:
  "emit sampleListeners (registerAll SCORE_UPDATE [0, 1, 2] newEventBus) SCORE_UPDATE None []
     = Returned \<lparr>world = [0, 1, 2], called = [0, 1, 2], logged = [(1, ListenerError)]\<rparr>"
  using emit_calls_every_listener [of sampleListeners
      "registerAll SCORE_UPDATE [0, 1, 2] newEventBus" SCORE_UPDATE None "[]" "[0, 1, 2]"]
  by (simp add: sampleListeners_def)

lemma getListenerCount_callbacksOf:
  "getListenerCount event bus = length (callbacksOf bus event)"
  by (simp add: getListenerCount_def callbacksOf_def split: option.splits)

lemma callbacksOf_cong:
  "listeners bus event = listeners bus' event \<Longrightarrow> callbacksOf bus event = callbacksOf bus' event"
  by (simp add: callbacksOf_def)

lemma initialize_rejected: "initialized m \<Longrightarrow> initialize oi sc m = Returned m"
  by (simp add: initialize_def)

lemma initialize_fresh:
  assumes ok: "initializeHookOk oi" and ni: "\<not> initialized m" and ex: "listenersExist m"
  shows "\<exists>m'. initialize oi sc m = Returned m' \<and> initialized m' \<and> scene m' = Some sc \<and>
           callbacksOf (eventBus m') SCENE_SHUTDOWN
             = callbacksOf (eventBus m) SCENE_SHUTDOWN
                 @ [functionsCreated (state_of (oi (m\<lparr>scene := Some sc, initialized := True\<rparr>)))] \<and>
           listenersExist m'"
proof -
  let ?m0 = "m\<lparr>scene := Some sc, initialized := True\<rparr>"
  from ok have h: "returned (oi ?m0)" "initialized (state_of (oi ?m0))"
    "scene (state_of (oi ?m0)) = Some sc"
    "listeners (eventBus (state_of (oi ?m0))) SCENE_SHUTDOWN = listeners (eventBus m) SCENE_SHUTDOWN"
    "functionsCreated m \<le> functionsCreated (state_of (oi ?m0))"
    unfolding initializeHookOk_def by (auto dest: spec [of _ ?m0])
  obtain m1 where m1: "oi ?m0 = Returned m1" using h(1) by (cases "oi ?m0") auto
  have cb: "callbacksOf (eventBus m1) SCENE_SHUTDOWN = callbacksOf (eventBus m) SCENE_SHUTDOWN"
    using h(4) m1 by (simp add: callbacksOf_def)
  have fresh: "functionsCreated m1 \<notin> set (callbacksOf (eventBus m) SCENE_SHUTDOWN)"
    using ex h(5) m1 by (auto simp: listenersExist_def list_all_iff)
  have below: "\<forall>cb \<in> set (callbacksOf (eventBus m) SCENE_SHUTDOWN). cb < Suc (functionsCreated m1)"
    using ex h(5) m1 by (auto simp: listenersExist_def list_all_iff)
  show ?thesis
    using ni m1 h(2,3) cb fresh below
    by (simp add: initialize_def callbacksOf_on set_add_def listenersExist_def list_all_iff)
qed

lemma cleanup_keeps:
  assumes ok: "cleanupHookOk oc" and ex: "listenersExist m"
  shows "\<exists>m'. cleanup oc m = Returned m' \<and> \<not> initialized m' \<and> scene m' = None \<and>
           callbacksOf (eventBus m') SCENE_SHUTDOWN = callbacksOf (eventBus m) SCENE_SHUTDOWN \<and>
           listenersExist m'"
proof -
  from ok have h: "returned (oc m)"
    "listeners (eventBus (state_of (oc m))) SCENE_SHUTDOWN = listeners (eventBus m) SCENE_SHUTDOWN"
    "functionsCreated m \<le> functionsCreated (state_of (oc m))"
    unfolding cleanupHookOk_def by auto
  obtain m1 where m1: "oc m = Returned m1" using h(1) by (cases "oc m") auto
  have cb: "callbacksOf (eventBus m1) SCENE_SHUTDOWN = callbacksOf (eventBus m) SCENE_SHUTDOWN"
    using h(2) m1 by (simp add: callbacksOf_def)
  show ?thesis
    using m1 cb ex h(3)
    by (auto simp: cleanup_def listenersExist_def list_all_iff)
qed

lemma lifecycle_count:
  assumes oi: "initializeHookOk oi" and oc: "cleanupHookOk oc"
  shows "listenersExist m \<Longrightarrow>
     \<exists>m' k'. lifecycle oi oc calls (m, k) = Returned (m', k') \<and> k \<le> k' \<and> listenersExist m' \<and>
        length (callbacksOf (eventBus m') SCENE_SHUTDOWN)
          = length (callbacksOf (eventBus m) SCENE_SHUTDOWN) + (k' - k)"
proof (induction calls arbitrary: m k)
  case Nil
  then show ?case by simp
next
  case (Cons c calls)
  show ?case
  proof (cases c)
    case (Initialize sc)
    show ?thesis
    proof (cases "initialized m")
      case True
      from Cons.IH [OF Cons.prems, of k] True Initialize show ?thesis
        by (simp add: initialize_rejected)
    next
      case False
      from initialize_fresh [OF oi False Cons.prems, of sc] obtain m1 where
        m1: "initialize oi sc m = Returned m1" "listenersExist m1"
        "length (callbacksOf (eventBus m1) SCENE_SHUTDOWN)
           = Suc (length (callbacksOf (eventBus m) SCENE_SHUTDOWN))"
        by auto
      from Cons.IH [OF m1(2), of "Suc k"] obtain m' k' where
        r: "lifecycle oi oc calls (m1, Suc k) = Returned (m', k')" "Suc k \<le> k'" "listenersExist m'"
        "length (callbacksOf (eventBus m') SCENE_SHUTDOWN)
          = length (callbacksOf (eventBus m1) SCENE_SHUTDOWN) + (k' - Suc k)"
        by blast
      show ?thesis
        using r m1 False Initialize by simp
    qed
  next
    case Cleanup
    from cleanup_keeps [OF oc Cons.prems] obtain m1 where
      m1: "cleanup oc m = Returned m1" "listenersExist m1"
      "callbacksOf (eventBus m1) SCENE_SHUTDOWN = callbacksOf (eventBus m) SCENE_SHUTDOWN"
      by auto
    from Cons.IH [OF m1(2), of k] m1 Cleanup show ?thesis by simp
  qed
qed

lemma lifecycle_append:
  "lifecycle oi oc calls mk = Returned mk' \<Longrightarrow>
   lifecycle oi oc (calls @ later) mk = lifecycle oi oc later mk'"
proof (induction calls arbitrary: mk)
  case Nil
  then show ?case by (cases mk) simp
next
  case (Cons c calls)
  obtain m k where mk: "mk = (m, k)" by (cases mk)
  show ?case
  proof (cases c)
    case (Initialize sc)
    with Cons mk show ?thesis by (cases "initialize oi sc m") auto
  next
    case Cleanup
    with Cons mk show ?thesis by (cases "cleanup oc m") auto
  qed
qed

text \<open>
  C10: a call of \<open>initialize\<close> that is not rejected as a duplicate registers one new
  function for \<open>SCENE_SHUTDOWN\<close>, and \<open>cleanup\<close> removes none. So over any series of
  calls of \<open>initialize\<close> and \<open>cleanup\<close> the number of shutdown listeners on the bus grows
  by one for each call of \<open>initialize\<close> that was not rejected, and a longer series never
  has fewer of them. The hooks of the subclass are taken to return and to leave the
  shutdown listeners alone.
\<close>

theorem shutdown_listeners_grow:
  assumes "initializeHookOk onInitialize" and "cleanupHookOk onCleanup" and "listenersExist m"
  shows "\<exists>m' k. lifecycle onInitialize onCleanup calls (m, 0) = Returned (m', k) \<and>
           getListenerCount SCENE_SHUTDOWN (eventBus m')
             = getListenerCount SCENE_SHUTDOWN (eventBus m) + k \<and>
           (\<exists>m'' k''. lifecycle onInitialize onCleanup (calls @ later) (m, 0) = Returned (m'', k'') \<and>
              getListenerCount SCENE_SHUTDOWN (eventBus m')
                \<le> getListenerCount SCENE_SHUTDOWN (eventBus m'')) \<and>
           callbacksOf (eventBus (state_of (cleanup onCleanup m))) SCENE_SHUTDOWN
             = callbacksOf (eventBus m) SCENE_SHUTDOWN"
proof -
  from lifecycle_count [OF assms(1,2,3), of calls 0] obtain m' k where
    a: "lifecycle onInitialize onCleanup calls (m, 0) = Returned (m', k)" "listenersExist m'"
    "length (callbacksOf (eventBus m') SCENE_SHUTDOWN)
       = length (callbacksOf (eventBus m) SCENE_SHUTDOWN) + k"
    by auto
  from lifecycle_count [OF assms(1,2) a(2), of later k] obtain m'' k'' where
    b: "lifecycle onInitialize onCleanup later (m', k) = Returned (m'', k'')"
    "length (callbacksOf (eventBus m'') SCENE_SHUTDOWN)
       = length (callbacksOf (eventBus m') SCENE_SHUTDOWN) + (k'' - k)"
    by auto
  have c: "lifecycle onInitialize onCleanup (calls @ later) (m, 0) = Returned (m'', k'')"
    using lifecycle_append [OF a(1), of later] b(1) by simp
  from cleanup_keeps [OF assms(2,3)] have d:
    "callbacksOf (eventBus (state_of (cleanup onCleanup m))) SCENE_SHUTDOWN
       = callbacksOf (eventBus m) SCENE_SHUTDOWN"
    by auto
  show ?thesis
    using a(1,3) b(2) c d by (simp add: getListenerCount_callbacksOf)
qed

lemma initializeHookOk_spawner: "initializeHookOk onInitialize_spawner"
  unfolding initializeHookOk_def
proof (intro allI impI)
  fix m :: EnemySpawner
  assume a: "scene m \<noteq> None \<and> initialized m"
  then obtain sc where sc: "scene m = Some sc" by auto
  show "returned (onInitialize_spawner m) \<and>
        initialized (state_of (onInitialize_spawner m)) \<and>
        scene (state_of (onInitialize_spawner m)) = scene m \<and>
        listeners (eventBus (state_of (onInitialize_spawner m))) SCENE_SHUTDOWN
          = listeners (eventBus m) SCENE_SHUTDOWN \<and>
        functionsCreated m \<le> functionsCreated (state_of (onInitialize_spawner m))"
    using a sc
    by (auto simp: onInitialize_spawner_def getScene_def Let_def split: option.splits prod.splits)
qed

lemma cleanupHookOk_spawner: "cleanupHookOk onCleanup_spawner"
  unfolding cleanupHookOk_def
  by (auto simp: onCleanup_spawner_def clearAllEnemies_def stop_def split: option.splits prod.splits)






theorem shutdown_listeners_grow_witness:
  "getListenerCount SCENE_SHUTDOWN
     (eventBus (fst (state_of (lifecycle onInitialize_spawner onCleanup_spawner
        [Initialize firstScene, Initialize secondScene, Cleanup, Initialize secondScene] (newEnemySpawner, 0)))))
   = 2"
proof -
  have ex: "listenersExist newEnemySpawner"
    by (simp add: listenersExist_def newEnemySpawner_def callbacksOf_def newEventBus_def)
  have k: "snd (state_of (lifecycle onInitialize_spawner onCleanup_spawner
        [Initialize firstScene, Initialize secondScene, Cleanup, Initialize secondScene] (newEnemySpawner, 0))) = 2"
    by (simp add: initialize_def cleanup_def newEnemySpawner_def onInitialize_spawner_def
        onCleanup_spawner_def getScene_def clearAllEnemies_def stop_def group_clear_def newGroup_def)
  have z: "getListenerCount SCENE_SHUTDOWN (eventBus newEnemySpawner) = 0"
    by (simp add: getListenerCount_def newEnemySpawner_def newEventBus_def)
  let ?calls = "[Initialize firstScene, Initialize secondScene, Cleanup, Initialize secondScene]"
  from shutdown_listeners_grow [OF initializeHookOk_spawner cleanupHookOk_spawner ex,
      of ?calls "[]"]
  obtain m' n where r:
    "lifecycle onInitialize_spawner onCleanup_spawner ?calls (newEnemySpawner, 0) = Returned (m', n)"
    "getListenerCount SCENE_SHUTDOWN (eventBus m')
       = getListenerCount SCENE_SHUTDOWN (eventBus newEnemySpawner) + n"
    by blast
  have "n = 2" using k unfolding r(1) by simp
  then show ?thesis unfolding r(1) using r(2) z by simp
qed

section \<open>Properties of ObjectPoolManager\<close>

lemma length_splice1: "i < length pool \<Longrightarrow> length (splice1 i pool) = length pool - 1"
  by (simp add: splice1_def)

lemma indexOf_less: "indexOf pool r = Some i \<Longrightarrow> i < length pool"
  by (induction pool arbitrary: i) (auto split: if_splits)

lemma indexOf_None_iff: "(indexOf pool r = None) = (r \<notin> set pool)"
  by (induction pool) auto

lemma maxSizeOf_returnToPool [simp]: "maxSizeOf (returnToPool k obj s) k' = maxSizeOf s k'"
  by (simp add: returnToPool_def maxSizeOf_def Let_def split: option.splits)

lemma poolTotal_returnToPool:
  "int (poolTotal (returnToPool k obj s) k) \<le> max (int (poolTotal s k)) (maxSizeOf s k)"
proof (cases "pools s k")
  case None
  then show ?thesis by (simp add: returnToPool_def poolTotal_def)
next
  case (Some pool)
  show ?thesis
  proof (cases "int (length pool) \<ge> maxSizeOf s k")
    case True
    show ?thesis
    proof (cases "indexOf pool obj")
      case None
      with Some True show ?thesis by (simp add: returnToPool_def poolTotal_def)
    next
      case (Some i)
      with \<open>pools s k = Some pool\<close> True indexOf_less [OF Some] show ?thesis
        by (simp add: returnToPool_def poolTotal_def length_splice1)
    qed
  next
    case False
    with Some show ?thesis by (simp add: returnToPool_def poolTotal_def Let_def)
  qed
qed

lemma poolTotal_returnAll:
  "int (poolTotal (returnAll k objs s) k) \<le> max (int (poolTotal s k)) (maxSizeOf s k)"
proof (induction objs arbitrary: s)
  case Nil
  show ?case by simp
next
  case (Cons obj objs)
  have "int (poolTotal (returnAll k (obj # objs) s) k)
          \<le> max (int (poolTotal (returnToPool k obj s) k)) (maxSizeOf s k)"
    using Cons.IH [of "returnToPool k obj s"] by simp
  also have "\<dots> \<le> max (int (poolTotal s k)) (maxSizeOf s k)"
    using poolTotal_returnToPool [of k obj s] by simp
  finally show ?case .
qed

lemma poolTotal_getFromPool:
  "poolTotal (snd (getFromPool k factory s)) k \<le> Suc (poolTotal s k)"
  by (simp add: getFromPool_def poolTotal_def Let_def split: option.splits prod.splits)

lemma returnToPool_full_untracked:
  "pools s k = Some pool \<Longrightarrow> int (length pool) \<ge> maxSizeOf s k \<Longrightarrow> obj \<notin> set pool \<Longrightarrow>
   returnToPool k obj s = s"
  by (simp add: returnToPool_def indexOf_None_iff [symmetric])

text \<open>
  C3: with the pool of a key at its maximal size \<open>N\<close>, returning one more object that the
  pool does not track should remove it from tracking and destroy it. Here \<open>N = 1\<close>: the
  pool of \<open>bullets\<close> holds the object 1, and the object 2 is returned. The code looks the
  object up with \<open>indexOf\<close>, does not find it, and returns: the state is unchanged and
  the object 2 has not been destroyed.
\<close>

theorem returnToPool_surplus_untracked_not_destroyed:
  "pools (poolCalls ''bullets'' [SetMaxPoolSize 1, GetFromPool (createAt 1)]
            newObjectPoolManager) ''bullets'' = Some [1] \<and>
   maxSizeOf (poolCalls ''bullets'' [SetMaxPoolSize 1, GetFromPool (createAt 1)]
            newObjectPoolManager) ''bullets'' = 1 \<and>
   returnToPool ''bullets'' 2
     (poolCalls ''bullets'' [SetMaxPoolSize 1, GetFromPool (createAt 1)] newObjectPoolManager)
     = poolCalls ''bullets'' [SetMaxPoolSize 1, GetFromPool (createAt 1)] newObjectPoolManager \<and>
   \<not> destroyed (objects (returnToPool ''bullets'' 2
        (poolCalls ''bullets'' [SetMaxPoolSize 1, GetFromPool (createAt 1)]
           newObjectPoolManager)) 2)"
  by (simp add: newObjectPoolManager_def setMaxPoolSize_def getFromPool_def createAt_def
      poolTotal_def maxSizeOf_def Let_def returnToPool_def)

text \<open>
  C4, as stated: over every sequence of \<open>getFromPool\<close>, \<open>returnToPool\<close> and
  \<open>setMaxPoolSize\<close> the pool of a key never tracks more objects than its maximal size.
  \<open>getFromPool\<close> does not look at the maximal size: with the size set to 1, two
  acquisitions in a row leave two objects in the pool.
\<close>

theorem pool_size_exceeds_max_counterexample:
  "int (poolTotal (poolCalls ''bullets''
          [SetMaxPoolSize 1, GetFromPool (createAt 1), GetFromPool (createAt 2)]
          newObjectPoolManager) ''bullets'')
   > maxSizeOf (poolCalls ''bullets''
          [SetMaxPoolSize 1, GetFromPool (createAt 1), GetFromPool (createAt 2)]
          newObjectPoolManager) ''bullets''"
  by (simp add: newObjectPoolManager_def setMaxPoolSize_def getFromPool_def createAt_def
      poolTotal_def maxSizeOf_def Let_def)

text \<open>
  C4, amended: only \<open>returnToPool\<close> enforces the capacity. One call of \<open>returnToPool\<close>,
  and any series of such calls, leaves the pool of the key no larger than the larger of
  its size before and the maximal size of the key (50 when unset or set to 0), and does
  not change that maximal size. One call of \<open>getFromPool\<close> adds at most one object,
  whatever the maximal size.
\<close>

theorem returnToPool_bounded_by_max:
  "int (poolTotal (returnToPool k obj s) k) \<le> max (int (poolTotal s k)) (maxSizeOf s k) \<and>
   int (poolTotal (returnAll k objs s) k) \<le> max (int (poolTotal s k)) (maxSizeOf s k) \<and>
   maxSizeOf (returnToPool k obj s) k = maxSizeOf s k \<and>
   poolTotal (snd (getFromPool k factory s)) k \<le> Suc (poolTotal s k)"
  using poolTotal_returnToPool [of k obj s] poolTotal_returnAll [of k objs s]
    poolTotal_getFromPool [of k factory s]
  by simp

section \<open>Properties of the numbers\<close>

lemma valueOf_powi: "valueOf (Finite m e) = of_int m * 2 powi e"
  by (simp add: power_int_def field_simps)

lemma aligned_value:
  assumes "e' \<le> e"
  shows "(of_int (m * 2 ^ nat (e - e')) :: real) * 2 powi e' = of_int m * 2 powi e"
proof -
  have "(2::real) powi e = 2 powi (e - e') * 2 powi e'"
    by (simp add: power_int_add [symmetric])
  moreover have "(2::real) powi (e - e') = 2 ^ nat (e - e')"
    using assms by (simp add: power_int_def)
  ultimately show ?thesis by simp
qed

lemma lessEqNumber_valueOf:
  "lessEqNumber (Finite m1 e1) (Finite m2 e2)
     = (valueOf (Finite m1 e1) \<le> valueOf (Finite m2 e2))"
proof -
  let ?e = "min e1 e2"
  have p: "(0::real) < 2 powi ?e" by simp
  have "(m1 * 2 ^ nat (e1 - ?e) \<le> m2 * 2 ^ nat (e2 - ?e))
          = ((of_int (m1 * 2 ^ nat (e1 - ?e)) :: real) \<le> of_int (m2 * 2 ^ nat (e2 - ?e)))"
    by (simp only: of_int_le_iff)
  also have "\<dots> = ((of_int (m1 * 2 ^ nat (e1 - ?e)) :: real) * 2 powi ?e
                      \<le> of_int (m2 * 2 ^ nat (e2 - ?e)) * 2 powi ?e)"
    using p by (simp only: mult_le_cancel_right_pos)
  also have "\<dots> = (valueOf (Finite m1 e1) \<le> valueOf (Finite m2 e2))"
    by (simp only: aligned_value [OF min.cobounded1] aligned_value [OF min.cobounded2]
        valueOf_powi)
  finally show ?thesis by (simp add: Let_def)
qed

lemma lessNumber_valueOf:
  "lessNumber (Finite m1 e1) (Finite m2 e2)
     = (valueOf (Finite m1 e1) < valueOf (Finite m2 e2))"
proof -
  let ?e = "min e1 e2"
  have p: "(0::real) < 2 powi ?e" by simp
  have "(m1 * 2 ^ nat (e1 - ?e) < m2 * 2 ^ nat (e2 - ?e))
          = ((of_int (m1 * 2 ^ nat (e1 - ?e)) :: real) < of_int (m2 * 2 ^ nat (e2 - ?e)))"
    by (simp only: of_int_less_iff)
  also have "\<dots> = ((of_int (m1 * 2 ^ nat (e1 - ?e)) :: real) * 2 powi ?e
                      < of_int (m2 * 2 ^ nat (e2 - ?e)) * 2 powi ?e)"
    using p by (simp only: mult_less_cancel_right_pos)
  also have "\<dots> = (valueOf (Finite m1 e1) < valueOf (Finite m2 e2))"
    by (simp only: aligned_value [OF min.cobounded1] aligned_value [OF min.cobounded2]
        valueOf_powi)
  finally show ?thesis by (simp add: Let_def)
qed

lemma lessEqNumber_zero: "lessEqNumber (Finite m e) zero = (m \<le> 0)"
  by (simp add: zero_def Let_def mult_le_0_iff)

lemma zero_lessEqNumber: "lessEqNumber zero (Finite m e) = (0 \<le> m)"
  by (simp add: zero_def Let_def zero_le_mult_iff)

lemma shiftNeeded_small: "n < 2 ^ 53 \<Longrightarrow> shiftNeeded n = 0"
  by (simp add: shiftNeeded.simps)

lemma roundToDouble_exact:
  assumes "0 < m" and "m < 2 ^ 53" and "- 1074 \<le> e" and "e \<le> 0"
  shows "roundToDouble m e = Finite m e"
proof -
  have s: "shiftNeeded \<bar>m\<bar> = 0" using assms(1,2) by (simp add: shiftNeeded_small)
  have "(2::int) ^ 53 \<le> 2 ^ nat (1024 - e)"
    using assms(4) by (intro power_increasing) auto
  with assms(1,2) have o: "\<not> overflows m e" using assms(4) by (simp add: overflows_def)
  show ?thesis
    using assms(1,3) s o by (simp add: roundToDouble_def finish_def Let_def)
qed

lemma finish_nonpos: "m \<le> 0 \<Longrightarrow> lessEqNumber (finish m e) zero"
  by (simp add: finish_def lessEqNumber_zero) (simp add: zero_def)


lemma roundToDouble_nonpos:
  assumes "m \<le> 0"
  shows "lessEqNumber (roundToDouble m e) zero"
proof (cases "m = 0")
  case True
  then show ?thesis by (simp add: roundToDouble_def lessEqNumber_zero)
next
  case False
  with assms have neg: "m < 0" by simp
  define k where "k = max (int (shiftNeeded \<bar>m\<bar>)) (- 1074 - e)"
  define q where "q = m div 2 ^ nat k"
  define q' where "q' = (if m mod 2 ^ nat k < 2 ^ nat (k - 1) then q
                       else if 2 ^ nat (k - 1) < m mod 2 ^ nat k then q + 1
                       else if even q then q else q + 1)"
  have r: "roundToDouble m e =
             (if k \<le> 0 then finish m e
              else if \<bar>q'\<bar> = 2 ^ 53 then finish (q' div 2) (e + k + 1) else finish q' (e + k))"
    unfolding roundToDouble_def k_def q'_def q_def Let_def using False by simp
  have q: "q < 0" unfolding q_def using neg by (simp add: div_neg_pos_less0)
  have q': "q' \<le> 0" unfolding q'_def using q by simp
  then have h: "q' div 2 \<le> 0" by simp
  show ?thesis
    unfolding r using assms q' h by (simp add: finish_nonpos)
qed

lemma subNumber_whole:
  assumes "0 \<le> m" and "m < 2 ^ 53" and "- 1074 \<le> e"
    and "valueOf (Finite m e) < 2 ^ 53" and "0 < k"
  shows "if valueOf (Finite m e) \<le> of_int k
         then lessEqNumber (subNumber (Finite m e) (ofInt k)) zero
         else (\<exists>m' e'. subNumber (Finite m e) (ofInt k) = Finite m' e' \<and>
                 0 < m' \<and> m' < 2 ^ 53 \<and> - 1074 \<le> e' \<and>
                 valueOf (Finite m' e') = valueOf (Finite m e) - of_int k)"
proof -
  define e' where "e' = min e 0"
  define M where "M = m * 2 ^ nat (e - e') + (- k) * 2 ^ nat (0 - e')"
  have s: "subNumber (Finite m e) (ofInt k) = roundToDouble M e'"
    by (simp add: subNumber_def ofInt_def Let_def M_def e'_def)
  have le: "e' \<le> e" "e' \<le> 0" "- 1074 \<le> e'" using assms(3) by (simp_all add: e'_def)
  have v: "(of_int M :: real) * 2 powi e' = valueOf (Finite m e) - of_int k"
  proof -
    have "(of_int M :: real) * 2 powi e'
            = of_int (m * 2 ^ nat (e - e')) * 2 powi e' - of_int (k * 2 ^ nat (0 - e')) * 2 powi e'"
      by (simp add: M_def algebra_simps)
    also have "\<dots> = of_int m * 2 powi e - of_int k * 2 powi 0"
      by (simp only: aligned_value [OF le(1)] aligned_value [OF le(2)])
    finally show ?thesis by (simp add: valueOf_powi del: valueOf.simps)
  qed
  have p: "(0::real) < 2 powi e'" by simp
  have sign: "(M \<le> 0) = (valueOf (Finite m e) \<le> of_int k)"
  proof -
    have n: "\<not> (2::real) powi e' \<le> 0" by (simp add: not_le)
    have "(M \<le> 0) = ((of_int M :: real) * 2 powi e' \<le> 0)"
      using n by (auto simp: mult_le_0_iff)
    then show ?thesis by (simp add: v)
  qed
  show ?thesis
  proof (cases "valueOf (Finite m e) \<le> of_int k")
    case True
    then have "M \<le> 0" by (simp add: sign)
    then show ?thesis using True by (simp add: s roundToDouble_nonpos)
  next
    case False
    then have pos: "0 < M" using sign by simp
    have small: "M < 2 ^ 53"
    proof (cases "e \<le> 0")
      case True
      then have "e' = e" by (simp add: e'_def)
      then have "M = m - k * 2 ^ nat (- e)" by (simp add: M_def)
      moreover have "0 \<le> k * 2 ^ nat (- e)" using assms(5) by simp
      ultimately show ?thesis using assms(2) by linarith
    next
      case False
      then have e0: "e' = 0" by (simp add: e'_def)
      then have "M = m * 2 ^ nat e - k" by (simp add: M_def)
      moreover have "(of_int (m * 2 ^ nat e) :: real) < 2 ^ 53"
        using assms(4) False by simp
      then have "m * 2 ^ nat e < 2 ^ 53"
        by (metis of_int_less_iff of_int_numeral of_int_power)
      ultimately show ?thesis using assms(5) by linarith
    qed
    have ex: "roundToDouble M e' = Finite M e'"
      using pos small le(3) le(2) by (rule roundToDouble_exact)
    have "valueOf (Finite M e') = valueOf (Finite m e) - of_int k"
      using v by (simp only: valueOf_powi)
    with pos small le(3) ex False show ?thesis by (simp add: s)
  qed
qed


lemma shiftNeeded_bound: "0 \<le> n \<Longrightarrow> n < 2 ^ (53 + shiftNeeded n)"
proof (induction n rule: shiftNeeded.induct)
  case (1 n)
  show ?case
  proof (cases "n < 2 ^ 53")
    case True
    then show ?thesis by (simp add: shiftNeeded_small)
  next
    case False
    then have s: "shiftNeeded n = Suc (shiftNeeded (n div 2))"
      by (subst shiftNeeded.simps) simp
    from 1 False have "n div 2 < 2 ^ (53 + shiftNeeded (n div 2))" by simp
    then have "n < 2 * 2 ^ (53 + shiftNeeded (n div 2))" by linarith
    moreover have "(2::int) ^ (53 + Suc (shiftNeeded (n div 2)))
                     = 2 * 2 ^ (53 + shiftNeeded (n div 2))"
      by (simp only: add_Suc_right power_Suc)
    ultimately show ?thesis unfolding s by (simp only:)
  qed
qed

lemma finish_isDouble: "\<bar>m\<bar> < 2 ^ 53 \<Longrightarrow> - 1074 \<le> e \<Longrightarrow> isDouble (finish m e)"
  by (simp add: finish_def)

lemma roundToDouble_isDouble: "isDouble (roundToDouble m e)"
proof (cases "m = 0")
  case True
  then show ?thesis by (simp add: roundToDouble_def overflows_def)
next
  case False
  define k where "k = max (int (shiftNeeded \<bar>m\<bar>)) (- 1074 - e)"
  define q where "q = m div 2 ^ nat k"
  define q' where "q' = (if m mod 2 ^ nat k < 2 ^ nat (k - 1) then q
                       else if 2 ^ nat (k - 1) < m mod 2 ^ nat k then q + 1
                       else if even q then q else q + 1)"
  have r: "roundToDouble m e =
             (if k \<le> 0 then finish m e
              else if \<bar>q'\<bar> = 2 ^ 53 then finish (q' div 2) (e + k + 1) else finish q' (e + k))"
    unfolding roundToDouble_def k_def q'_def q_def Let_def using False by simp
  have b: "\<bar>m\<bar> < 2 ^ (53 + shiftNeeded \<bar>m\<bar>)" by (rule shiftNeeded_bound) simp
  have ke: "- 1074 \<le> e + k" by (simp add: k_def)
  show ?thesis
  proof (cases "k \<le> 0")
    case True
    then have "shiftNeeded \<bar>m\<bar> = 0" "- 1074 \<le> e" by (simp_all add: k_def)
    with b have "\<bar>m\<bar> < 2 ^ 53" by simp
    with \<open>- 1074 \<le> e\<close> True show ?thesis by (simp add: r finish_isDouble)
  next
    case pos: False
    have "shiftNeeded \<bar>m\<bar> \<le> nat k" by (simp add: k_def)
    then have "(2::int) ^ (53 + shiftNeeded \<bar>m\<bar>) \<le> 2 ^ (53 + nat k)"
      by (intro power_increasing) auto
    with b have "\<bar>m\<bar> < 2 ^ (53 + nat k)" by (rule less_le_trans)
    then have m: "\<bar>m\<bar> < 2 ^ 53 * 2 ^ nat k" by (simp only: power_add)
    define P :: int where "P = 2 ^ nat k"
    define B :: int where "B = 2 ^ 53"
    have p: "0 < P" by (simp add: P_def)
    have eq: "m = q * P + m mod P"
      unfolding q_def P_def by (rule div_mult_mod_eq [symmetric])
    have md: "0 \<le> m mod P" "m mod P < P" using p by simp_all
    from m have mB: "m < B * P" "- (B * P) < m" unfolding P_def B_def by linarith+
    have up: "q < B"
    proof (rule ccontr)
      assume "\<not> q < B"
      then have "B * P \<le> q * P" using p by (simp add: mult_right_mono)
      with eq md(1) mB(1) show False by linarith
    qed
    have lo: "- B \<le> q"
    proof (rule ccontr)
      assume "\<not> - B \<le> q"
      then have "q + 1 \<le> - B" by simp
      then have "(q + 1) * P \<le> (- B) * P" using p by (intro mult_right_mono) simp_all
      then have "q * P + P \<le> - (B * P)" by (simp add: algebra_simps)
      with eq md(2) mB(2) show False by linarith
    qed
    note up = up [unfolded B_def] and lo = lo [unfolded B_def]
    have r0: "0 \<le> m mod 2 ^ nat k" by simp
    have q'1: "q' \<le> 2 ^ 53" "q' = q \<or> q' = q + 1" using up by (auto simp: q'_def)
    have q'2: "- (2 ^ 53) \<le> q'" using lo q'1(2) by auto
    have abs: "\<bar>q'\<bar> \<le> 2 ^ 53" using q'1(1) q'2 by linarith
    show ?thesis
    proof (cases "\<bar>q'\<bar> = 2 ^ 53")
      case True
      then have "q' = 2 ^ 53 \<or> q' = - (2 ^ 53)" by linarith
      then have "\<bar>q' div 2\<bar> < 2 ^ 53" by auto
      moreover have "- 1074 \<le> e + k + 1" using ke by simp
      ultimately show ?thesis using pos True by (simp add: r finish_isDouble)
    next
      case False
      with abs have "\<bar>q'\<bar> < 2 ^ 53" by linarith
      with ke pos False show ?thesis by (simp add: r finish_isDouble)
    qed
  qed
qed

lemma addNumber_isDouble: "isDouble (addNumber a b)"
  by (cases a; cases b) (simp_all add: roundToDouble_isDouble Let_def)

lemma mulNumber_isDouble: "isDouble (mulNumber a b)"
  by (cases a; cases b) (simp_all add: roundToDouble_isDouble)

text \<open>
  Evaluation of the operations on numerals: the definitions are unfolded only where
  the mantissa is a numeral.
\<close>

lemmas shiftNeeded_numeral = shiftNeeded.simps [of "numeral n"] shiftNeeded.simps [of 1] for n

lemmas roundToDouble_numeral =
  roundToDouble_def [of "numeral m" e] roundToDouble_def [of "- numeral m" e]
  roundToDouble_def [of 0 e] roundToDouble_def [of 1 e] roundToDouble_def [of "- 1" e] for m e

lemmas number_eval =
  subNumber_def roundToDouble_numeral finish_def overflows_def shiftNeeded_numeral zero_def
  ofInt_def Let_def

section \<open>Properties of EnemySpawner\<close>

lemma find_map_Suc:
  "find P (map Suc xs) = map_option Suc (find (\<lambda>i. P (Suc i)) xs)"
  by (induction xs) auto

lemma cumulativeWeight_0: "cumulativeWeight (item # rest) 0 = valueOf (snd item)"
  by (simp add: cumulativeWeight_def)

lemma cumulativeWeight_Suc:
  "cumulativeWeight (item # rest) (Suc i) = valueOf (snd item) + cumulativeWeight rest i"
  by (simp add: cumulativeWeight_def)

lemma firstReaching_Cons:
  "firstReaching (item # rest) r =
     (if r - valueOf (snd item) \<le> 0 then Some (fst item)
      else firstReaching rest (r - valueOf (snd item)))"
proof -
  have upt: "[0..<length (item # rest)] = 0 # map Suc [0..<length rest]"
    unfolding map_Suc_upt by (simp add: upt_conv_Cons del: upt_Suc)
  have shift: "(\<lambda>i. r \<le> cumulativeWeight (item # rest) (Suc i))
                 = (\<lambda>i. r - valueOf (snd item) \<le> cumulativeWeight rest i)"
    by (auto simp: cumulativeWeight_Suc fun_eq_iff)
  show ?thesis
    unfolding firstReaching_def upt
    by (simp add: cumulativeWeight_0 find_map_Suc shift option.map_comp comp_def)
qed

lemma firstReaching_Nil [simp]: "firstReaching [] r = None"
  by (simp add: firstReaching_def)

lemma firstReaching_returns:
  "0 \<le> r \<Longrightarrow> r < sum_list (map (\<lambda>item. valueOf (snd item)) table) \<Longrightarrow>
   \<exists>t. firstReaching table r = Some t"
proof (induction table arbitrary: r)
  case Nil
  then show ?case by simp
next
  case (Cons item rest)
  show ?case
  proof (cases "r - valueOf (snd item) \<le> 0")
    case True
    then show ?thesis by (simp add: firstReaching_Cons)
  next
    case False
    with Cons.prems have "0 \<le> r - valueOf (snd item)"
      "r - valueOf (snd item) < sum_list (map (\<lambda>item. valueOf (snd item)) rest)"
      by simp_all
    from Cons.IH [OF this] False show ?thesis by (simp add: firstReaching_Cons)
  qed
qed

lemma weightTable_Cons:
  "weightTable (entry # rest) = (fst entry, ofInt (snd entry)) # weightTable rest"
  by (simp add: weightTable_def)

lemma valueOf_ofInt: "valueOf (ofInt k) = of_int k"
  by (simp add: ofInt_def)

lemma walkWeights_whole:
  assumes "\<forall>entry \<in> set entries. 0 < snd entry" and "0 \<le> m" and "m < 2 ^ 53"
    and "- 1074 \<le> e" and "valueOf (Finite m e) < 2 ^ 53"
  shows "walkWeights (weightTable entries) (Finite m e)
           = firstReaching (weightTable entries) (valueOf (Finite m e))"
  using assms
proof (induction entries arbitrary: m e)
  case Nil
  show ?case by (simp add: weightTable_def firstReaching_def)
next
  case (Cons entry rest)
  from Cons.prems(1) have k: "0 < snd entry" and rest: "\<forall>entry \<in> set rest. 0 < snd entry"
    by simp_all
  note sub = subNumber_whole [OF Cons.prems(2-5) k]
  show ?case
  proof (cases "valueOf (Finite m e) \<le> of_int (snd entry)")
    case True
    with sub have "lessEqNumber (subNumber (Finite m e) (ofInt (snd entry))) zero" by simp
    then have "walkWeights (weightTable (entry # rest)) (Finite m e) = Some (fst entry)"
      by (simp add: weightTable_Cons Let_def)
    moreover have "firstReaching (weightTable (entry # rest)) (valueOf (Finite m e))
                     = Some (fst entry)"
      using True by (simp add: weightTable_Cons firstReaching_Cons valueOf_ofInt
          del: valueOf.simps)
    ultimately show ?thesis by simp
  next
    case False
    with sub obtain m' e' where
      d: "subNumber (Finite m e) (ofInt (snd entry)) = Finite m' e'"
      and m': "0 < m'" "m' < 2 ^ 53" "- 1074 \<le> e'"
      and v: "valueOf (Finite m' e') = valueOf (Finite m e) - of_int (snd entry)"
      by auto
    from v Cons.prems(5) k have small: "valueOf (Finite m' e') < 2 ^ 53" by simp
    from m'(1) have nonneg: "0 \<le> m'" by simp
    have "walkWeights (weightTable (entry # rest)) (Finite m e)
            = walkWeights (weightTable rest) (Finite m' e')"
      using m'(1) by (simp add: weightTable_Cons Let_def d lessEqNumber_zero)
    also have "\<dots> = firstReaching (weightTable rest) (valueOf (Finite m' e'))"
      by (rule Cons.IH [OF rest nonneg m'(2,3) small])
    also have "\<dots> = firstReaching (weightTable (entry # rest)) (valueOf (Finite m e))"
      using False by (simp add: weightTable_Cons firstReaching_Cons valueOf_ofInt v
          del: valueOf.simps)
    finally show ?thesis .
  qed
qed

lemma sum_list_whole_nonneg:
  "\<forall>entry \<in> set entries. 0 < snd entry \<Longrightarrow> (0::int) \<le> sum_list (map snd entries)"
  by (induction entries) auto

lemma foldl_addNumber_whole:
  assumes "\<forall>entry \<in> set entries. 0 < snd entry" and "0 \<le> a"
    and "a + sum_list (map snd entries) < 2 ^ 53"
  shows "foldl (\<lambda>sum item. addNumber sum (snd item)) (Finite a 0) (weightTable entries)
           = Finite (a + sum_list (map snd entries)) 0"
  using assms
proof (induction entries arbitrary: a)
  case Nil
  show ?case by (simp add: weightTable_def)
next
  case (Cons entry rest)
  from Cons.prems(1) have k: "0 < snd entry" and rest: "\<forall>entry \<in> set rest. 0 < snd entry"
    by simp_all
  from sum_list_whole_nonneg [OF rest] Cons.prems(2,3) k
  have b: "0 < a + snd entry" "a + snd entry < 2 ^ 53" by simp_all
  have "addNumber (Finite a 0) (ofInt (snd entry)) = roundToDouble (a + snd entry) 0"
    by (simp add: ofInt_def)
  also have "\<dots> = Finite (a + snd entry) 0"
    using b by (intro roundToDouble_exact) simp_all
  finally have step: "addNumber (Finite a 0) (ofInt (snd entry)) = Finite (a + snd entry) 0" .
  have "foldl (\<lambda>sum item. addNumber sum (snd item)) (Finite (a + snd entry) 0)
          (weightTable rest) = Finite (a + snd entry + sum_list (map snd rest)) 0"
    using rest b(1) Cons.prems(3) by (intro Cons.IH) (simp_all add: add.assoc)
  then show ?case by (simp add: weightTable_Cons step add.assoc)
qed

lemma totalWeight_whole:
  assumes "\<forall>entry \<in> set entries. 0 < snd entry" and "sum_list (map snd entries) < 2 ^ 53"
  shows "totalWeight (weightTable entries) = ofInt (sum_list (map snd entries))"
  using foldl_addNumber_whole [OF assms(1), of 0] assms(2)
  by (simp add: totalWeight_def zero_def ofInt_def)

lemma sum_list_weightTable:
  "sum_list (map (\<lambda>item. valueOf (snd item)) (weightTable entries))
     = of_int (sum_list (map snd entries))"
  by (induction entries) (simp_all add: weightTable_def ofInt_def)

text \<open>
  C7, as stated: for every table of positive weights and every draw \<open>0 \<le> r < total\<close> the
  loop returns the first entry whose cumulative weight reaches \<open>r\<close>. With weights that
  are fractions the subtractions of the loop round, and the loop can end without
  \<open>return\<close>. The table holds the doubles nearest to 0.03, 0.11 and 0.15, all positive;
  the draw \<open>r\<close> is the double nearest to 0.29, which is what \<open>getRandomEnemyType\<close> computes
  when \<open>Math.random\<close> returns \<open>1 - 2^-52\<close>. The draw is below the total that the code
  computes and below the exact sum of the weights, so that the first entry whose
  cumulative weight reaches it is the third one. The remainders of the loop are 0.26,
  0.15000000000000002 and \<open>2^-55\<close>, none of them \<open>\<le> 0\<close>, and the default after the loop
  is returned.
\<close>

theorem weighted_selection_fraction_weights_counterexample:
  "list_all (\<lambda>item. isDouble (snd item) \<and> lessNumber zero (snd item)) fractionTable \<and>
   isDouble fractionDraw \<and> lessEqNumber zero fractionDraw \<and>
   lessNumber fractionDraw (totalWeight fractionTable) \<and>
   valueOf fractionDraw < cumulativeWeight fractionTable 2 \<and>
   mulNumber highDraw (totalWeight fractionTable) = fractionDraw \<and>
   walkWeights fractionTable fractionDraw = None \<and>
   weightedChoice fractionTable fractionDraw = ''slime'' \<and>
   getRandomEnemyType highDraw (newEnemySpawner\<lparr>enemyWeights := fractionTable\<rparr>)
     = ''slime'' \<and>
   firstReaching fractionTable (valueOf fractionDraw) = Some ''goblin''"
proof -
  have t: "totalWeight fractionTable = Finite 5224175567749776 (- 54)"
    by (simp add: totalWeight_def fractionTable_def number_eval)
  have a: "list_all (\<lambda>item. isDouble (snd item) \<and> lessNumber zero (snd item)) fractionTable"
    by (simp add: fractionTable_def number_eval)
  have b: "isDouble fractionDraw \<and> lessEqNumber zero fractionDraw \<and>
           lessNumber fractionDraw (totalWeight fractionTable)"
    unfolding t by (simp add: fractionDraw_def number_eval)
  have c: "valueOf fractionDraw < cumulativeWeight fractionTable 2"
    by (simp add: fractionDraw_def fractionTable_def cumulativeWeight_def)
  have d: "mulNumber highDraw (totalWeight fractionTable) = fractionDraw"
    unfolding t by (simp add: highDraw_def fractionDraw_def number_eval)
  have e: "walkWeights fractionTable fractionDraw = None"
    by (simp add: fractionTable_def fractionDraw_def number_eval)
  have f: "weightedChoice fractionTable fractionDraw = ''slime''"
    by (simp add: weightedChoice_def e)
  have g: "getRandomEnemyType highDraw (newEnemySpawner\<lparr>enemyWeights := fractionTable\<rparr>)
             = ''slime''"
    by (simp add: getRandomEnemyType_def d f)
  have h: "firstReaching fractionTable (valueOf fractionDraw) = Some ''goblin''"
    by (simp add: fractionTable_def fractionDraw_def firstReaching_Cons)
  from a b c d e f g h show ?thesis by simp
qed

text \<open>
  C7, amended: for a table of positive whole weights with a sum below \<open>2^53\<close>,
  as the table of the spawner is, the total that the code computes is the exact sum,
  and for every double \<open>r\<close> with \<open>0 \<le> r < total\<close> the loop of \<open>getRandomEnemyType\<close> returns
  from inside the loop, so that the default after the loop is not reached, and what it
  returns is the type of the first entry whose cumulative weight is at least \<open>r\<close>.
  \<open>getRandomEnemyType\<close> makes the draw \<open>r = Math.random() * total\<close>, which is a double
  (\<open>mulNumber_isDouble\<close>).
\<close>

theorem weighted_selection_whole_weights:
  assumes "\<forall>entry \<in> set entries. 0 < snd entry"
    and "sum_list (map snd entries) < 2 ^ 53"
    and "isDouble r" and "lessEqNumber zero r"
    and "lessNumber r (totalWeight (weightTable entries))"
  shows "totalWeight (weightTable entries) = ofInt (sum_list (map snd entries)) \<and>
         (\<exists>t. walkWeights (weightTable entries) r = Some t \<and>
              firstReaching (weightTable entries) (valueOf r) = Some t \<and>
              weightedChoice (weightTable entries) r = t \<and>
              (\<forall>u s. enemyWeights s = weightTable entries \<and>
                     mulNumber u (totalWeight (weightTable entries)) = r \<longrightarrow>
                     getRandomEnemyType u s = t))"
proof -
  let ?table = "weightTable entries"
  have total: "totalWeight ?table = ofInt (sum_list (map snd entries))"
    using assms(1,2) by (rule totalWeight_whole)
  from assms(4,5) obtain m e where r: "r = Finite m e"
    by (cases r) (simp_all add: zero_def total ofInt_def)
  from assms(4) have m0: "0 \<le> m" by (simp add: r zero_lessEqNumber)
  from assms(3) have "\<bar>m\<bar> < 2 ^ 53" and e: "- 1074 \<le> e" by (simp_all add: r)
  then have m1: "m < 2 ^ 53" by linarith
  from assms(5) have below: "valueOf (Finite m e) < of_int (sum_list (map snd entries))"
    unfolding total r ofInt_def lessNumber_valueOf by simp
  have "(of_int (sum_list (map snd entries)) :: real) < 2 ^ 53"
    using assms(2) by (metis of_int_less_iff of_int_numeral of_int_power)
  with below have small: "valueOf (Finite m e) < 2 ^ 53" by linarith
  have nonneg: "0 \<le> valueOf (Finite m e)"
    using m0 by (simp add: valueOf_powi del: valueOf.simps)
  have w: "walkWeights ?table r = firstReaching ?table (valueOf r)"
    unfolding r using assms(1) m0 m1 e small by (rule walkWeights_whole)
  from firstReaching_returns [of "valueOf (Finite m e)" ?table] nonneg below
  obtain t where t: "firstReaching ?table (valueOf r) = Some t"
    unfolding r sum_list_weightTable by blast
  have c: "weightedChoice ?table r = t"
    using t w by (simp add: weightedChoice_def)
  have g: "getRandomEnemyType u s = t"
    if "enemyWeights s = ?table \<and> mulNumber u (totalWeight ?table) = r" for u s
    using that c by (auto simp: getRandomEnemyType_def)
  from total t w c g show ?thesis by auto
qed

theorem weighted_selection_whole_weights_witness:
  "enemyWeights newEnemySpawner
     = weightTable [(''slime'', 50), (''flying_creature'', 30), (''goblin'', 20)] \<and>
   totalWeight (enemyWeights newEnemySpawner) = ofInt 100 \<and>
   mulNumber (typeDraw sampleDraws) (totalWeight (enemyWeights newEnemySpawner))
     = Finite 4573968371548160 (- 46) \<and>
   valueOf (Finite 4573968371548160 (- 46)) = 65 \<and>
   walkWeights (enemyWeights newEnemySpawner) (Finite 4573968371548160 (- 46))
     = Some ''flying_creature'' \<and>
   firstReaching (enemyWeights newEnemySpawner) 65 = Some ''flying_creature'' \<and>
   getRandomEnemyType (typeDraw sampleDraws) newEnemySpawner = ''flying_creature''"
proof -
  define entries :: "(string \<times> int) list"
    where "entries = [(''slime'', 50), (''flying_creature'', 30), (''goblin'', 20)]"
  define r where "r = Finite 4573968371548160 (- 46)"
  have table: "enemyWeights newEnemySpawner = weightTable entries"
    by (simp add: newEnemySpawner_def weightTable_def entries_def)
  have a: "\<forall>entry \<in> set entries. 0 < snd entry" by (simp add: entries_def)
  have b: "sum_list (map snd entries) < 2 ^ 53" by (simp add: entries_def)
  have t: "totalWeight (weightTable entries) = ofInt 100"
    by (simp add: totalWeight_def weightTable_def entries_def number_eval)
  have c: "isDouble r" by (simp add: r_def overflows_def)
  have d: "lessEqNumber zero r" by (simp add: r_def zero_def Let_def)
  have e: "lessNumber r (totalWeight (weightTable entries))"
    unfolding t by (simp add: r_def ofInt_def Let_def)
  have v: "valueOf r = 65" by (simp add: r_def)
  have u: "mulNumber (typeDraw sampleDraws) (totalWeight (weightTable entries)) = r"
    unfolding t by (simp add: sampleDraws_def r_def number_eval)
  have f: "firstReaching (weightTable entries) 65 = Some ''flying_creature''"
    by (simp add: weightTable_def entries_def firstReaching_Cons ofInt_def)
  from weighted_selection_whole_weights [OF a b c d e]
  obtain t0 where w: "walkWeights (weightTable entries) r = Some t0"
    and g: "firstReaching (weightTable entries) (valueOf r) = Some t0"
    and h: "\<forall>u s. enemyWeights s = weightTable entries \<and>
                  mulNumber u (totalWeight (weightTable entries)) = r \<longrightarrow>
                  getRandomEnemyType u s = t0"
    by blast
  from g f have t0: "t0 = ''flying_creature''" by (simp add: v)
  from h table u have ty: "getRandomEnemyType (typeDraw sampleDraws) newEnemySpawner = t0"
    by blast
  have "enemyWeights newEnemySpawner = weightTable entries \<and>
        totalWeight (enemyWeights newEnemySpawner) = ofInt 100 \<and>
        mulNumber (typeDraw sampleDraws) (totalWeight (enemyWeights newEnemySpawner)) = r \<and>
        valueOf r = 65 \<and>
        walkWeights (enemyWeights newEnemySpawner) r = Some ''flying_creature'' \<and>
        firstReaching (enemyWeights newEnemySpawner) 65 = Some ''flying_creature'' \<and>
        getRandomEnemyType (typeDraw sampleDraws) newEnemySpawner = ''flying_creature''"
    unfolding table using t u v w f ty t0 by simp
  then show ?thesis unfolding entries_def r_def .
qed

text \<open>
  With \<open>Math.random\<close> the double nearest to 0.8, which is above 0.8, the product with the
  total of the spawner rounds to 80, and the loop stops at the second entry.
\<close>

lemma draw_rounds_to_boundary:
  "mulNumber (Finite 3602879701896397 (- 52)) (totalWeight (enemyWeights newEnemySpawner))
     = Finite 5629499534213120 (- 46) \<and>
   valueOf (Finite 5629499534213120 (- 46)) = 80 \<and>
   getRandomEnemyType (Finite 3602879701896397 (- 52)) newEnemySpawner = ''flying_creature''"
  by (simp add: getRandomEnemyType_def weightedChoice_def totalWeight_def newEnemySpawner_def
      number_eval)

lemma distanceBetween_ge:
  "(d \<le> distanceBetween x1 y1 x2 y2) = (d \<le> 0 \<or> d\<^sup>2 \<le> (x1 - x2)\<^sup>2 + (y1 - y2)\<^sup>2)"
proof (cases "d \<le> 0")
  case True
  have "0 \<le> sqrt ((x1 - x2)\<^sup>2 + (y1 - y2)\<^sup>2)" by simp
  with True have "d \<le> sqrt ((x1 - x2)\<^sup>2 + (y1 - y2)\<^sup>2)" by (rule order_trans)
  with True show ?thesis by (simp add: distanceBetween_def)
next
  case False
  then have "d = sqrt (d\<^sup>2)" by simp
  then have "(d \<le> distanceBetween x1 y1 x2 y2)
       = (sqrt (d\<^sup>2) \<le> sqrt ((x1 - x2)\<^sup>2 + (y1 - y2)\<^sup>2))"
    by (simp add: distanceBetween_def)
  also have "\<dots> = (d\<^sup>2 \<le> (x1 - x2)\<^sup>2 + (y1 - y2)\<^sup>2)"
    by (rule real_sqrt_le_iff)
  finally show ?thesis using False by simp
qed

lemma farEnough_squares [code]:
  "farEnough d pos p =
     (d \<le> 0 \<or> d\<^sup>2 \<le> (fst pos - sprite_x p)\<^sup>2 + (snd pos - sprite_y p)\<^sup>2)"
  by (simp add: farEnough_def distanceBetween_ge)

lemma spawnEnemy_Threw: "spawnEnemy d s = Threw e s' \<Longrightarrow> s' = s"
  by (auto simp: spawnEnemy_def Let_def split: option.splits if_splits sum.splits)

lemma spawnEnemy_Returned:
  "spawnEnemy d s = Returned s' \<Longrightarrow>
   s' = s \<or> (int (liveCount s) < maxEnemies s \<and> liveCount s' = Suc (liveCount s))"
  by (auto simp: spawnEnemy_def Let_def liveCount_def liveEnemies_def group_add_def
      split: option.splits if_splits sum.splits)

lemma spawnEnemy_Returned_player: "spawnEnemy d s = Returned s' \<Longrightarrow> player s \<noteq> None"
  by (auto simp: spawnEnemy_def split: option.splits)

lemma spawnEnemy_below_cap:
  "spawnEnemy d s = Returned s' \<Longrightarrow> enemies s \<noteq> None \<Longrightarrow> int (liveCount s) < maxEnemies s \<Longrightarrow>
   liveCount s' = Suc (liveCount s)"
  by (auto simp: spawnEnemy_def Let_def liveCount_def liveEnemies_def group_add_def
      split: option.splits if_splits sum.splits)

lemma spawnEnemy_at_cap:
  "player s \<noteq> None \<Longrightarrow> 0 < maxEnemies s \<Longrightarrow> maxEnemies s \<le> int (liveCount s) \<Longrightarrow>
   spawnEnemy d s = Returned s"
  by (auto simp: spawnEnemy_def Let_def liveCount_def liveEnemies_def
      split: option.splits if_splits sum.splits)

lemma spawnEnemy_no_group:
  "player s \<noteq> None \<Longrightarrow> enemies s = None \<Longrightarrow> spawnEnemy d s = Returned s"
  by (auto simp: spawnEnemy_def split: option.splits)

lemma spawnEnemy_keeps:
  "maxEnemies (state_of (spawnEnemy d s)) = maxEnemies s"
  "player (state_of (spawnEnemy d s)) = player s"
  by (auto simp: spawnEnemy_def Let_def split: option.splits if_splits sum.splits)

lemma liveCount_clearAllEnemies: "liveCount (clearAllEnemies s) = 0"
  by (auto simp: clearAllEnemies_def liveCount_def liveEnemies_def group_clear_def
      split: option.splits if_splits)

lemma liveCount_stop [simp]: "liveCount (stop s) = liveCount s"
  by (simp add: stop_def liveCount_def liveEnemies_def split: option.splits)

lemma withinCap_spawnEnemy:
  assumes "withinCap cap s"
  shows "withinCap cap (state_of (spawnEnemy d s))"
proof (cases "spawnEnemy d s")
  case (Returned s')
  from spawnEnemy_Returned [OF Returned] spawnEnemy_Returned_player [OF Returned]
    spawnEnemy_keeps [of d s] assms Returned
  show ?thesis by (auto simp: withinCap_def)
next
  case (Threw e s')
  from spawnEnemy_Threw [OF Threw] Threw assms show ?thesis by simp
qed

lemma withinCap_scheduled: "withinCap cap (s\<lparr>scheduled := ts\<rparr>) = withinCap cap s"
  by (simp add: withinCap_def liveCount_def liveEnemies_def)

lemma withinCap_reset: "withinCap cap s \<Longrightarrow> withinCap cap (reset s)"
  using liveCount_clearAllEnemies [of "stop s"]
  by (simp add: withinCap_def reset_def onCleanup_spawner_def liveCount_def liveEnemies_def
      clearAllEnemies_def stop_def split: option.splits)

lemma withinCap_cleanup: "withinCap cap s \<Longrightarrow> withinCap cap (state_of (cleanup onCleanup_spawner s))"
  using liveCount_clearAllEnemies [of "stop s"]
  by (simp add: withinCap_def cleanup_def onCleanup_spawner_def liveCount_def liveEnemies_def
      clearAllEnemies_def stop_def split: option.splits)

lemma withinCap_initialize:
  "withinCap cap s \<Longrightarrow> withinCap cap (state_of (initialize onInitialize_spawner sc s))"
  by (auto simp: withinCap_def initialize_def onInitialize_spawner_def getScene_def Let_def
      liveCount_def liveEnemies_def newGroup_def split: option.splits prod.splits)

lemma withinCap_clearAllEnemies: "withinCap cap s \<Longrightarrow> withinCap cap (clearAllEnemies s)"
  using liveCount_clearAllEnemies [of s]
  by (simp add: withinCap_def clearAllEnemies_def split: option.splits)

lemma withinCap_step: "withinCap cap s \<Longrightarrow> withinCap cap (spawnerStep step s)"
proof (cases step)
  case (CallInitialize sc)
  assume "withinCap cap s"
  with CallInitialize show ?thesis by (simp add: withinCap_initialize)
next
  case CallCleanup
  assume "withinCap cap s"
  with CallCleanup show ?thesis by (simp add: withinCap_cleanup)
next
  case CallReset
  assume "withinCap cap s"
  with CallReset show ?thesis by (simp add: withinCap_reset)
next
  case (CallSetPlayer p)
  assume "withinCap cap s"
  with CallSetPlayer show ?thesis
    by (simp add: withinCap_def setPlayer_def liveCount_def liveEnemies_def)
next
  case CallStart
  assume "withinCap cap s"
  with CallStart show ?thesis
    by (auto simp: withinCap_def start_def Let_def liveCount_def liveEnemies_def
        split: option.splits sum.splits)
next
  case CallStop
  assume "withinCap cap s"
  with CallStop show ?thesis
    by (auto simp: withinCap_def stop_def liveCount_def liveEnemies_def split: option.splits)
next
  case CallClearAllEnemies
  assume "withinCap cap s"
  with CallClearAllEnemies show ?thesis by (simp add: withinCap_clearAllEnemies)
next
  case (TimerFires i d)
  assume a: "withinCap cap s"
  show ?thesis
    using TimerFires withinCap_spawnEnemy [OF a, of d]
      withinCap_spawnEnemy [of cap "s\<lparr>scheduled := take i (scheduled s) @ drop (Suc i) (scheduled s)\<rparr>" d]
      a
    by (simp add: Let_def withinCap_scheduled)
next
  case (EnemyDestroyed i)
  assume "withinCap cap s"
  with EnemyDestroyed show ?thesis
    by (auto simp: withinCap_def removeChild_def liveCount_def liveEnemies_def
        split: option.splits)
next
  case GroupFails
  assume "withinCap cap s"
  with GroupFails show ?thesis
    by (auto simp: withinCap_def liveCount_def liveEnemies_def split: option.splits)
next
  case GroupDestroyed
  assume "withinCap cap s"
  with GroupDestroyed show ?thesis
    by (auto simp: withinCap_def liveCount_def liveEnemies_def split: option.splits)
qed

lemma withinCap_run: "withinCap cap s \<Longrightarrow> withinCap cap (spawnerRun steps s)"
  by (induction steps arbitrary: s) (simp_all add: withinCap_step)

lemma withinCap_configured: "withinCap cap (configured cap interval)"
  by (simp add: withinCap_def configured_def newEnemySpawner_def liveCount_def liveEnemies_def)

text \<open>
  C5, amended: along every run of a new spawner under a fixed configuration, whatever
  the spawn interval, the live count stays within \<open>maxEnemies\<close> (within 0 when that value
  is negative). With a positive \<open>maxEnemies\<close>, \<open>spawnEnemy\<close> called at or above the cap
  returns and changes nothing. For any state: a call that throws changes nothing; a call
  that returns adds no enemy or exactly one, and one only below the cap; a call that
  returns below the cap adds exactly one enemy when the spawner has its group; without
  a group, and with a player, the call returns without spawning.
\<close>

theorem live_count_within_cap:
  "int (liveCount (spawnerRun steps (configured cap interval))) \<le> max cap 0 \<and>
   maxEnemies (spawnerRun steps (configured cap interval)) = cap \<and>
   (0 < cap \<and> cap \<le> int (liveCount (spawnerRun steps (configured cap interval))) \<longrightarrow>
      spawnEnemy d (spawnerRun steps (configured cap interval))
        = Returned (spawnerRun steps (configured cap interval))) \<and>
   (\<forall>s e s'. spawnEnemy d s = Threw e s' \<longrightarrow> s' = s) \<and>
   (\<forall>s s'. spawnEnemy d s = Returned s' \<longrightarrow>
      s' = s \<or> (int (liveCount s) < maxEnemies s \<and> liveCount s' = Suc (liveCount s))) \<and>
   (\<forall>s s'. spawnEnemy d s = Returned s' \<and> enemies s \<noteq> None \<and> int (liveCount s) < maxEnemies s \<longrightarrow>
      liveCount s' = Suc (liveCount s)) \<and>
   (\<forall>s. player s \<noteq> None \<and> enemies s = None \<longrightarrow> spawnEnemy d s = Returned s)"
proof -
  let ?s = "spawnerRun steps (configured cap interval)"
  have inv: "withinCap cap ?s"
    by (rule withinCap_run [OF withinCap_configured])
  have a: "int (liveCount ?s) \<le> max cap 0" "maxEnemies ?s = cap"
    using inv by (simp_all add: withinCap_def)
  have b: "spawnEnemy d ?s = Returned ?s" if "0 < cap \<and> cap \<le> int (liveCount ?s)"
  proof -
    from that inv have "player ?s \<noteq> None" by (auto simp: withinCap_def)
    with that a(2) show ?thesis by (simp add: spawnEnemy_at_cap)
  qed
  show ?thesis
    using a b spawnEnemy_Threw [of d] spawnEnemy_Returned [of d] spawnEnemy_below_cap [of d]
      spawnEnemy_no_group [of _ d]
    by blast
qed

lemma initialized_state:
  "initialize onInitialize_spawner firstScene (configured cap interval) =
   Returned
     ((startedSpawner cap interval)\<lparr>player := None, spawnTimer := None, scheduled := []\<rparr>)"
  by (simp add: initialize_def configured_def newEnemySpawner_def onInitialize_spawner_def
      getScene_def on_def set_add_def newEventBus_def startedSpawner_def)

lemma started_state:
  "spawnerRun [CallInitialize firstScene, CallSetPlayer samplePlayer, CallStart]
     (configured cap interval) = startedSpawner cap interval"
  by (simp add: initialized_state setPlayer_def start_def ensurePlayerSet_def getScene_def
      upt_conv_Cons Let_def startedSpawner_def)

lemma newEnemySpawner_configured: "newEnemySpawner = configured 15 1500"
  by (simp add: configured_def newEnemySpawner_def)

lemma sample_position:
  "getRandomSpawnPosition sampleDraws
     ((startedSpawner cap interval)\<lparr>scheduled := ts\<rparr>) = Inr (0, -450)"
  by (simp add: getRandomSpawnPosition_def startedSpawner_def getScene_def firstScene_def
      samplePlayer_def sampleDraws_def farEnough_squares Let_def)

lemma sample_type:
  "getRandomEnemyType (typeDraw sampleDraws) ((startedSpawner cap interval)\<lparr>scheduled := ts\<rparr>)
     = ''flying_creature''"
  by (simp add: getRandomEnemyType_def weightedChoice_def totalWeight_def startedSpawner_def
      sampleDraws_def number_eval)

lemma first_spawn:
  "0 < cap \<Longrightarrow>
   spawnerStep (TimerFires 0 sampleDraws) (startedSpawner cap interval) =
     (startedSpawner cap interval)
       \<lparr>enemies := Some \<lparr>children = Some [firstEnemy], clearThrows = False\<rparr>,
        scheduled := [\<lparr>delay = 200, loop = False\<rparr>, \<lparr>delay = 400, loop = False\<rparr>,
                      \<lparr>delay = interval, loop = True\<rparr>],
        spawnEvents := [(''flying_creature'', 0, -450)]\<rparr>"
proof -
  assume cap: "0 < cap"
  let ?s1 = "(startedSpawner cap interval)
       \<lparr>scheduled := [\<lparr>delay = 200, loop = False\<rparr>, \<lparr>delay = 400, loop = False\<rparr>,
                      \<lparr>delay = interval, loop = True\<rparr>]\<rparr>"
  have step: "spawnerStep (TimerFires 0 sampleDraws) (startedSpawner cap interval)
                = state_of (spawnEnemy sampleDraws ?s1)"
    by (simp add: startedSpawner_def Let_def)
  have sp: "spawnEnemy sampleDraws ?s1 =
      Returned (?s1\<lparr>enemies := Some (group_add firstEnemy newGroup),
                     spawnEvents := [(''flying_creature'', 0, -450)]\<rparr>)"
    unfolding spawnEnemy_def sample_position sample_type
    using cap by (simp add: startedSpawner_def newGroup_def firstEnemy_def Let_def)
  show ?thesis
    unfolding step sp by (simp add: group_add_def newGroup_def startedSpawner_def)
qed

lemma run_after_start:
  "spawnerRun (CallInitialize firstScene # CallSetPlayer samplePlayer # CallStart # steps)
     (configured cap interval) = spawnerRun steps (startedSpawner cap interval)"
proof -
  have "spawnerRun (CallInitialize firstScene # CallSetPlayer samplePlayer # CallStart # steps)
          (configured cap interval)
        = spawnerRun steps
            (spawnerRun [CallInitialize firstScene, CallSetPlayer samplePlayer, CallStart]
               (configured cap interval))"
    by (simp only: spawnerRun.simps)
  then show ?thesis by (simp only: started_state)
qed

lemma liveCount_first_spawn:
  "0 < cap \<Longrightarrow>
   liveCount (spawnerStep (TimerFires 0 sampleDraws) (startedSpawner cap interval)) = 1"
  by (simp only: first_spawn) (simp add: liveCount_def liveEnemies_def)

theorem live_count_within_cap_witness:
  "int (liveCount (spawnerRun
      [CallInitialize firstScene, CallSetPlayer samplePlayer, CallStart,
       TimerFires 0 sampleDraws] (configured 1 1500))) \<le> 1 \<and>
   spawnEnemy sampleDraws (spawnerRun
      [CallInitialize firstScene, CallSetPlayer samplePlayer, CallStart,
       TimerFires 0 sampleDraws] (configured 1 1500))
     = Returned (spawnerRun
      [CallInitialize firstScene, CallSetPlayer samplePlayer, CallStart,
       TimerFires 0 sampleDraws] (configured 1 1500))"
proof -
  define steps where "steps = [CallInitialize firstScene, CallSetPlayer samplePlayer, CallStart,
       TimerFires 0 sampleDraws]"
  have "spawnerRun steps (configured 1 1500)
          = spawnerStep (TimerFires 0 sampleDraws) (startedSpawner 1 1500)"
    unfolding steps_def run_after_start by (simp only: spawnerRun.simps)
  then have one: "liveCount (spawnerRun steps (configured 1 1500)) = 1"
    by (simp only: liveCount_first_spawn)
  from live_count_within_cap [of steps 1 1500 sampleDraws] one
  show ?thesis unfolding steps_def by simp
qed

lemma group_dropped_state:
  "spawnerRun [GroupFails, CallClearAllEnemies] (startedSpawner cap interval)
     = (startedSpawner cap interval)\<lparr>enemies := None\<rparr>"
  by (simp add: startedSpawner_def clearAllEnemies_def group_clear_def newGroup_def)

lemma spawn_without_group:
  "spawnerStep (TimerFires 3 sampleDraws) ((startedSpawner cap interval)\<lparr>enemies := None\<rparr>)
     = (startedSpawner cap interval)\<lparr>enemies := None\<rparr> \<and>
   spawnEnemy sampleDraws ((startedSpawner cap interval)\<lparr>enemies := None\<rparr>)
     = Returned ((startedSpawner cap interval)\<lparr>enemies := None\<rparr>)"
  by (simp add: startedSpawner_def spawnEnemy_def Let_def)

lemma reset_started_state:
  "spawnerRun [CallReset] (startedSpawner cap interval)
     = (startedSpawner cap interval)
         \<lparr>initialized := False, player := None, spawnTimer := None,
          scheduled := [\<lparr>delay = 0, loop = False\<rparr>, \<lparr>delay = 200, loop = False\<rparr>,
                        \<lparr>delay = 400, loop = False\<rparr>]\<rparr>"
  by (simp add: startedSpawner_def reset_def onCleanup_spawner_def stop_def clearAllEnemies_def
      group_clear_def newGroup_def)

text \<open>
  C5, as stated: \<open>spawnEnemy\<close> at or above the cap never errors, and every call that
  completes below the cap adds exactly one enemy. Two runs show otherwise. In the first,
  \<open>clear\<close> fails on the group and \<open>clearAllEnemies\<close> drops the group; the repeating
  timer then fires, and \<open>spawnEnemy\<close> returns with the live count at 0, below the cap of
  15, and still 0 afterwards. In the second the cap is 0; after \<open>reset\<close> the one-shot
  timer events of \<open>start\<close> are still scheduled, the live count 0 is at the cap, and
  \<open>spawnEnemy\<close> throws because the player is not set.
\<close>

theorem spawnEnemy_below_cap_counterexample:
  "returned (spawnEnemy sampleDraws (spawnerRun
      [CallInitialize firstScene, CallSetPlayer samplePlayer, CallStart, GroupFails,
       CallClearAllEnemies] (configured 15 1500))) \<and>
   int (liveCount (spawnerRun
      [CallInitialize firstScene, CallSetPlayer samplePlayer, CallStart, GroupFails,
       CallClearAllEnemies] (configured 15 1500))) < 15 \<and>
   liveCount (spawnerRun
      [CallInitialize firstScene, CallSetPlayer samplePlayer, CallStart, GroupFails,
       CallClearAllEnemies, TimerFires 3 sampleDraws] (configured 15 1500))
     = liveCount (spawnerRun
      [CallInitialize firstScene, CallSetPlayer samplePlayer, CallStart, GroupFails,
       CallClearAllEnemies] (configured 15 1500)) \<and>
   maxEnemies (spawnerRun
      [CallInitialize firstScene, CallSetPlayer samplePlayer, CallStart, CallReset]
      (configured 0 1500))
     \<le> int (liveCount (spawnerRun
      [CallInitialize firstScene, CallSetPlayer samplePlayer, CallStart, CallReset]
      (configured 0 1500))) \<and>
   \<not> returned (spawnEnemy sampleDraws (spawnerRun
      [CallInitialize firstScene, CallSetPlayer samplePlayer, CallStart, CallReset]
      (configured 0 1500))) \<and>
   scheduled (spawnerRun
      [CallInitialize firstScene, CallSetPlayer samplePlayer, CallStart, CallReset]
      (configured 0 1500)) \<noteq> []"
proof -
  let ?dropped = "(startedSpawner 15 1500)\<lparr>enemies := None\<rparr>"
  have a: "spawnerRun
      [CallInitialize firstScene, CallSetPlayer samplePlayer, CallStart, GroupFails,
       CallClearAllEnemies] (configured 15 1500) = ?dropped"
    by (simp only: run_after_start group_dropped_state)
  have "spawnerRun
      [CallInitialize firstScene, CallSetPlayer samplePlayer, CallStart, GroupFails,
       CallClearAllEnemies, TimerFires 3 sampleDraws] (configured 15 1500)
      = spawnerStep (TimerFires 3 sampleDraws)
          (spawnerRun [GroupFails, CallClearAllEnemies] (startedSpawner 15 1500))"
    unfolding run_after_start by (simp only: spawnerRun.simps)
  then have b: "spawnerRun
      [CallInitialize firstScene, CallSetPlayer samplePlayer, CallStart, GroupFails,
       CallClearAllEnemies, TimerFires 3 sampleDraws] (configured 15 1500) = ?dropped"
    by (simp only: group_dropped_state spawn_without_group)
  have c: "spawnEnemy sampleDraws ?dropped = Returned ?dropped"
    by (simp only: spawn_without_group)
  have d: "liveCount ?dropped = 0"
    by (simp add: liveCount_def liveEnemies_def)
  let ?reset = "(startedSpawner 0 1500)
         \<lparr>initialized := False, player := None, spawnTimer := None,
          scheduled := [\<lparr>delay = 0, loop = False\<rparr>, \<lparr>delay = 200, loop = False\<rparr>,
                        \<lparr>delay = 400, loop = False\<rparr>]\<rparr>"
  have e: "spawnerRun
      [CallInitialize firstScene, CallSetPlayer samplePlayer, CallStart, CallReset]
      (configured 0 1500) = ?reset"
    by (simp only: run_after_start reset_started_state)
  have f: "maxEnemies ?reset = 0" "liveCount ?reset = 0" "scheduled ?reset \<noteq> []"
    by (simp_all add: startedSpawner_def liveCount_def liveEnemies_def newGroup_def)
  have g: "spawnEnemy sampleDraws ?reset = Threw PlayerNotSet ?reset"
    by (simp add: spawnEnemy_def)
  show ?thesis
    unfolding a b e c g using d f by simp
qed

lemma reset_fields:
  "spawnTimer (reset s) = None"
  "player (reset s) = None"
  "\<not> initialized (reset s)"
  "scene (reset s) = scene s"
  "eventBus (reset s) = eventBus s"
  "functionsCreated (reset s) = functionsCreated s"
  "scheduled (reset s) = (case spawnTimer s of None \<Rightarrow> scheduled s | Some t \<Rightarrow> remove1 t (scheduled s))"
  by (auto simp: reset_def onCleanup_spawner_def clearAllEnemies_def stop_def
      split: option.splits prod.splits)

lemma liveCount_reset: "liveCount (reset s) = 0"
  using liveCount_clearAllEnemies [of "stop s"]
  by (simp add: reset_def onCleanup_spawner_def liveCount_def liveEnemies_def)

lemma reset_clear_ok:
  "enemies s = Some g \<Longrightarrow> children g = Some es \<Longrightarrow> \<not> clearThrows g \<Longrightarrow>
   enemies (reset s) = Some (g\<lparr>children := Some []\<rparr>) \<and>
   destroyedEnemies (reset s) = destroyedEnemies s @ es"
  by (auto simp: reset_def onCleanup_spawner_def clearAllEnemies_def stop_def group_clear_def
      split: option.splits)

lemma reset_clear_throws:
  "enemies s = Some g \<Longrightarrow> children g = Some es \<Longrightarrow> clearThrows g \<Longrightarrow>
   enemies (reset s) = None \<and> destroyedEnemies (reset s) = destroyedEnemies s"
  by (auto simp: reset_def onCleanup_spawner_def clearAllEnemies_def stop_def group_clear_def
      split: option.splits)

lemma onInitialize_spawner_result:
  "scene m = Some sc \<Longrightarrow>
   \<exists>m1. onInitialize_spawner m = Returned m1 \<and> enemies m1 = Some newGroup \<and>
        spawnTimer m1 = spawnTimer m \<and> initialized m1 = initialized m \<and>
        scene m1 = scene m \<and> eventBus m1 = eventBus m \<and>
        functionsCreated m1 = functionsCreated m"
  by (auto simp: onInitialize_spawner_def getScene_def Let_def split: option.splits prod.splits)

lemma initialize_after_reset:
  "\<exists>t. initialize onInitialize_spawner sc (reset s) = Returned t \<and>
       enemies t = Some newGroup \<and> liveCount t = 0 \<and> spawnTimer t = None \<and>
       isInitialized t \<and> scene t = Some sc \<and>
       callbacksOf (eventBus t) SCENE_SHUTDOWN
         = set_add (functionsCreated s) (callbacksOf (eventBus s) SCENE_SHUTDOWN)"
proof -
  define r where "r = reset s"
  define m0 where "m0 = r\<lparr>scene := Some sc, initialized := True\<rparr>"
  have ni: "\<not> initialized r" unfolding r_def by (rule reset_fields)
  have f: "spawnTimer m0 = None" "eventBus m0 = eventBus s"
    "functionsCreated m0 = functionsCreated s" "scene m0 = Some sc" "initialized m0"
    unfolding m0_def r_def by (simp_all add: reset_fields)
  from onInitialize_spawner_result [OF f(4)] obtain m1 where
    m1: "onInitialize_spawner m0 = Returned m1" "enemies m1 = Some newGroup"
    "spawnTimer m1 = None" "initialized m1" "scene m1 = Some sc"
    "eventBus m1 = eventBus s" "functionsCreated m1 = functionsCreated s"
    using f by auto
  have "initialize onInitialize_spawner sc r
          = Returned (m1\<lparr>eventBus := on SCENE_SHUTDOWN (functionsCreated m1) (eventBus m1),
                          functionsCreated := Suc (functionsCreated m1)\<rparr>)"
    using ni m1(1) by (simp add: initialize_def m0_def)
  then show ?thesis
    unfolding r_def using m1
    by (simp add: isInitialized_def liveCount_def liveEnemies_def newGroup_def callbacksOf_on)
qed

text \<open>
  C6, amended: \<open>reset\<close>, in any state, returns with the timer of \<open>spawnTimer\<close> removed
  from the clock and \<open>spawnTimer\<close> null, the player cleared, the flag \<open>initialized\<close>
  lowered and no live enemy held. When the group has its children and \<open>clear\<close> works,
  every live enemy is destroyed; when \<open>clear\<close> throws, the group is dropped and no
  enemy is destroyed by the call. In every case \<open>initialize\<close> right after \<open>reset\<close> is not
  skipped: it returns with a new empty group, no timer, the flag raised, the new scene,
  and its shutdown listener registered.
\<close>

theorem reset_then_initialize:
  "spawnTimer (reset s) = None \<and>
   scheduled (reset s)
     = (case spawnTimer s of None \<Rightarrow> scheduled s | Some t \<Rightarrow> remove1 t (scheduled s)) \<and>
   player (reset s) = None \<and>
   \<not> initialized (reset s) \<and> \<not> isInitialized (reset s) \<and>
   liveCount (reset s) = 0 \<and>
   (\<forall>g es. enemies s = Some g \<and> children g = Some es \<and> \<not> clearThrows g \<longrightarrow>
      enemies (reset s) = Some (g\<lparr>children := Some []\<rparr>) \<and>
      destroyedEnemies (reset s) = destroyedEnemies s @ es) \<and>
   (\<forall>g es. enemies s = Some g \<and> children g = Some es \<and> clearThrows g \<longrightarrow>
      enemies (reset s) = None \<and> destroyedEnemies (reset s) = destroyedEnemies s) \<and>
   (\<exists>t. initialize onInitialize_spawner sc (reset s) = Returned t \<and>
      enemies t = Some newGroup \<and> liveCount t = 0 \<and> spawnTimer t = None \<and>
      isInitialized t \<and> scene t = Some sc \<and>
      callbacksOf (eventBus t) SCENE_SHUTDOWN
        = set_add (functionsCreated s) (callbacksOf (eventBus s) SCENE_SHUTDOWN))"
  using reset_fields [of s] liveCount_reset [of s] reset_clear_ok [of s] reset_clear_throws [of s]
    initialize_after_reset [of sc s]
  by (simp add: isInitialized_def)

lemma first_spawn_run:
  "spawnerRun
     (CallInitialize firstScene # CallSetPlayer samplePlayer # CallStart #
      TimerFires 0 sampleDraws # steps) newEnemySpawner
   = spawnerRun steps
       ((startedSpawner 15 1500)
          \<lparr>enemies := Some \<lparr>children = Some [firstEnemy], clearThrows = False\<rparr>,
           scheduled := [\<lparr>delay = 200, loop = False\<rparr>, \<lparr>delay = 400, loop = False\<rparr>,
                         \<lparr>delay = 1500, loop = True\<rparr>],
           spawnEvents := [(''flying_creature'', 0, -450)]\<rparr>)"
proof -
  have "spawnerRun (TimerFires 0 sampleDraws # steps) (startedSpawner 15 1500)
          = spawnerRun steps (spawnerStep (TimerFires 0 sampleDraws) (startedSpawner 15 1500))"
    by (simp only: spawnerRun.simps)
  then show ?thesis
    unfolding newEnemySpawner_configured run_after_start by (simp only: first_spawn)
qed

text \<open>
  C6, as stated: \<open>reset\<close> finalizes every live enemy in any state. Here the spawner
  holds one enemy and \<open>clear\<close> fails on its group: \<open>reset\<close> catches the exception and
  drops the group, and the enemy has not been destroyed.
\<close>

theorem reset_failed_clear_counterexample:
  "liveEnemies (spawnerRun
      [CallInitialize firstScene, CallSetPlayer samplePlayer, CallStart,
       TimerFires 0 sampleDraws, GroupFails] newEnemySpawner) = [firstEnemy] \<and>
   destroyedEnemies (reset (spawnerRun
      [CallInitialize firstScene, CallSetPlayer samplePlayer, CallStart,
       TimerFires 0 sampleDraws, GroupFails] newEnemySpawner)) = [] \<and>
   enemies (reset (spawnerRun
      [CallInitialize firstScene, CallSetPlayer samplePlayer, CallStart,
       TimerFires 0 sampleDraws, GroupFails] newEnemySpawner)) = None"
proof -
  define s where "s = (startedSpawner 15 1500)
          \<lparr>enemies := Some \<lparr>children = Some [firstEnemy], clearThrows = True\<rparr>,
           scheduled := [\<lparr>delay = 200, loop = False\<rparr>, \<lparr>delay = 400, loop = False\<rparr>,
                         \<lparr>delay = 1500, loop = True\<rparr>],
           spawnEvents := [(''flying_creature'', 0, -450)]\<rparr>"
  have run: "spawnerRun
      [CallInitialize firstScene, CallSetPlayer samplePlayer, CallStart,
       TimerFires 0 sampleDraws, GroupFails] newEnemySpawner = s"
    unfolding first_spawn_run s_def by (simp add: startedSpawner_def)
  have a: "liveEnemies s = [firstEnemy]"
    by (simp add: s_def liveEnemies_def)
  have b: "enemies s = Some \<lparr>children = Some [firstEnemy], clearThrows = True\<rparr>"
    "destroyedEnemies s = []"
    by (simp_all add: s_def startedSpawner_def)
  from reset_clear_throws [OF b(1)] b(2)
  have "enemies (reset s) = None \<and> destroyedEnemies (reset s) = []" by simp
  with a show ?thesis unfolding run by simp
qed

theorem reset_then_initialize_witness:
  "destroyedEnemies (reset (spawnerRun
      [CallInitialize firstScene, CallSetPlayer samplePlayer, CallStart,
       TimerFires 0 sampleDraws] newEnemySpawner)) = [firstEnemy] \<and>
   liveCount (state_of (initialize onInitialize_spawner secondScene (reset (spawnerRun
      [CallInitialize firstScene, CallSetPlayer samplePlayer, CallStart,
       TimerFires 0 sampleDraws] newEnemySpawner)))) = 0 \<and>
   isInitialized (state_of (initialize onInitialize_spawner secondScene (reset (spawnerRun
      [CallInitialize firstScene, CallSetPlayer samplePlayer, CallStart,
       TimerFires 0 sampleDraws] newEnemySpawner))))"
proof -
  define s where "s = (startedSpawner 15 1500)
          \<lparr>enemies := Some \<lparr>children = Some [firstEnemy], clearThrows = False\<rparr>,
           scheduled := [\<lparr>delay = 200, loop = False\<rparr>, \<lparr>delay = 400, loop = False\<rparr>,
                         \<lparr>delay = 1500, loop = True\<rparr>],
           spawnEvents := [(''flying_creature'', 0, -450)]\<rparr>"
  define g where "g = \<lparr>children = Some [firstEnemy], clearThrows = False\<rparr>"
  have run: "spawnerRun
      [CallInitialize firstScene, CallSetPlayer samplePlayer, CallStart,
       TimerFires 0 sampleDraws] newEnemySpawner = s"
    unfolding first_spawn_run s_def by simp
  have a: "enemies s = Some g" "destroyedEnemies s = []"
    by (simp_all add: s_def g_def startedSpawner_def)
  have b: "children g = Some [firstEnemy]" "\<not> clearThrows g"
    by (simp_all add: g_def)
  from reset_then_initialize [of s secondScene] obtain t where
    r: "\<forall>g es. enemies s = Some g \<and> children g = Some es \<and> \<not> clearThrows g \<longrightarrow>
          enemies (reset s) = Some (g\<lparr>children := Some []\<rparr>) \<and>
          destroyedEnemies (reset s) = destroyedEnemies s @ es"
    and t: "initialize onInitialize_spawner secondScene (reset s) = Returned t"
       "liveCount t = 0" "isInitialized t"
    by blast
  from r a(1) b have "destroyedEnemies (reset s) = destroyedEnemies s @ [firstEnemy]" by blast
  with a(2) t show ?thesis unfolding run by simp
qed

end
